theory Spec2Isabelle
  imports Main "HOL-Library.Sublist"
begin

section \<open>The Janus server: lifecycle and hot reload (pkg/server/server.go)\<close>

text \<open>
  The Go file holds one struct, \<open>Server\<close>, and its methods. The methods run in several
  goroutines that share the struct; the model passes the struct explicitly, together with
  the routers the methods allocate (a store indexed by router id, since a router is
  shared by reference between the registry and the HTTP server) and a trace of the calls
  made to the collaborating packages, in the order the code makes them.
\<close>

subsection \<open>Collaborators: handlers, middleware, routers\<close>

text \<open>
  Request handlers: \<open>errors.NotFound\<close>, the only one the file names, and the fallback a
  router has of its own when no not-found handler is given to it.
  \<open>errors.RecoveryHandler\<close> is the argument of the recovery middleware.
\<close>

datatype handler = NotFound | RouterDefaultNotFound

datatype recovery_handler = RecoveryHandler

text \<open>The metrics client (\<open>client.Client\<close> of stats-go) is an opaque handle.\<close>

datatype stats_client = StatsClient nat

text \<open>
  The five middleware values \<open>createRouter\<close> builds: \<open>middleware.NewStats(c).Handler\<close>,
  \<open>middleware.NewLogger().Handler\<close>, \<open>middleware.NewRecovery(h)\<close>,
  \<open>middleware.NewOpenTracing(tls).Handler\<close> and \<open>middleware.RequestID\<close>.
\<close>

datatype middleware =
    NewStats stats_client
  | NewLogger
  | NewRecovery recovery_handler
  | NewOpenTracing bool
  | MiddlewareRequestID

text \<open>
  A route of a router: one registered directly with \<open>r.Any(path, handler)\<close> (every HTTP
  method on that path), or one materialized by the registry for a route specification.
  The specification type \<open>api.Spec\<close> is not declared in this file; it is the type
  parameter \<open>'spec\<close>, of which only equality is used.
\<close>

datatype 'spec route = AnyRoute string handler | ApiRoute 'spec

record 'spec router =
  notFoundHandler :: handler
  middlewares :: "middleware list"
  routes :: "'spec route list"

record router_options =
  NotFoundHandler :: "handler option"

text \<open>
  Modelled from the spec: package \<open>router\<close> (\<open>DefaultOptions\<close>,
  \<open>NewChiRouterWithOptions\<close>, \<open>Use\<close>, \<open>Any\<close>, \<open>RoutesCount\<close>) is not in this file. The
  spec asks of a Router that it has a not-found fallback, a middleware chain applied in
  the order given, and a route table. A new router has no middleware and no route, and
  the not-found handler of its options, or its own fallback when the options name none,
  as the default options do; \<open>Use\<close> appends to the chain; \<open>Any\<close> appends a route;
  \<open>RoutesCount\<close> counts the routes.
\<close>

definition DefaultOptions :: router_options where
  "DefaultOptions = \<lparr>NotFoundHandler = None\<rparr>"

definition NewChiRouterWithOptions :: "router_options \<Rightarrow> 'spec router" where
  "NewChiRouterWithOptions opts =
     \<lparr>notFoundHandler =
        (case NotFoundHandler opts of None \<Rightarrow> RouterDefaultNotFound | Some h \<Rightarrow> h),
      middlewares = [],
      routes = []\<rparr>"

definition Use :: "middleware list \<Rightarrow> 'spec router \<Rightarrow> 'spec router" where
  "Use ms r = r\<lparr>middlewares := middlewares r @ ms\<rparr>"

definition Any :: "string \<Rightarrow> handler \<Rightarrow> 'spec router \<Rightarrow> 'spec router" where
  "Any path h r = r\<lparr>routes := routes r @ [AnyRoute path h]\<rparr>"

definition RoutesCount :: "'spec router \<Rightarrow> nat" where
  "RoutesCount r = length (routes r)"

subsection \<open>Process configuration\<close>

text \<open>
  The fields of \<open>config.Specification\<close> the file reads. \<open>IsHTTPS\<close> is the result of the
  method \<open>TLS.IsHTTPS()\<close>. Durations are nanoseconds, as \<open>time.Duration\<close>.
\<close>

record tls_config =
  IsHTTPS :: bool
  TLSPort :: nat
  Redirect :: bool
  CertFile :: string
  KeyFile :: string

record config_specification =
  Port :: nat
  TLS :: tls_config
  GraceTimeOut :: int
  RequestID :: bool
  BackendFlushInterval :: int
  MaxIdleConnsPerHost :: nat
  CloseIdleConnsPeriod :: int

subsection \<open>Channels\<close>

text \<open>
  A buffered Go channel: the values waiting in it, its capacity and whether it has been
  closed. \<open>close\<close> of a closed channel panics. A receive can proceed when a value waits or
  the channel is closed; on a closed and drained channel it yields the zero value with
  \<open>ok = false\<close>, here \<open>None\<close>. A receive that cannot proceed blocks: the outer \<open>None\<close>.
\<close>

record 'a chan =
  buf :: "'a list"
  capacity :: nat
  isClosed :: bool

definition make_chan :: "nat \<Rightarrow> 'a chan" where
  "make_chan n = \<lparr>buf = [], capacity = n, isClosed = False\<rparr>"

definition close_chan :: "'a chan \<Rightarrow> 'a chan option" where
  "close_chan c = (if isClosed c then None else Some (c\<lparr>isClosed := True\<rparr>))"

definition recv :: "'a chan \<Rightarrow> ('a option \<times> 'a chan) option" where
  "recv c =
     (case buf c of
        x # xs \<Rightarrow> Some (Some x, c\<lparr>buf := xs\<rparr>)
      | [] \<Rightarrow> if isClosed c then Some (None, c) else None)"

subsection \<open>The Server struct and the world around it\<close>

datatype panic = CloseOfClosedChannel | NilPointerDereference

text \<open>
  \<open>api.ConfigurationChanged\<close>: the message of the configuration channel. Its field is a
  slice, which may be \<open>nil\<close> (\<open>None\<close>); a non-nil empty slice is \<open>Some []\<close>.
\<close>

record 'spec configuration_changed =
  Configurations :: "'spec list option"

text \<open>
  The provider is an interface value; the file only asks whether it is a
  \<open>*api.MongoRepository\<close>, whose session it then reads.
\<close>

datatype provider = MongoRepository nat | OtherRepository

text \<open>\<open>proxy.Params\<close> and the registry \<open>proxy.Register\<close>, bound to a router by its id.\<close>

record proxy_params =
  StatsClientParam :: stats_client
  FlushInterval :: int
  IdleConnectionsPerHost :: nat
  CloseIdleConnsPeriodParam :: int

record proxy_register =
  regRouter :: nat
  regParams :: proxy_params

text \<open>
  \<open>loader.APILoader\<close> keeps the pointer to the registry it was built with. The file
  builds one registry and one loader, together, so the loader's registry is the
  server's \<open>register\<close>.
\<close>

datatype api_loader = APILoader

text \<open>\<open>http.Server\<close>: the address (a port), the handler (a router id), and whether
  \<open>Close\<close> has run on it.\<close>

record http_server =
  Addr :: nat
  Handler :: nat
  srvClosed :: bool

text \<open>The payloads of the two lifecycle events, \<open>plugin.OnStartup\<close> and \<open>plugin.OnReload\<close>.\<close>

datatype event_name = StartupEvent | ReloadEvent

datatype 'spec event =
    OnStartup stats_client "proxy_register option" config_specification
      "'spec list option" "nat option"
  | OnReload "'spec list option"

text \<open>
  The trace: what the methods did to their collaborators, oldest first.
  \<open>OrchestratorInvoked\<close> marks an entry into \<open>handleEvent\<close> and \<open>CloseInvoked\<close> an entry into
  \<open>Close\<close>; the others are calls of the code: \<open>createRouter\<close> (the id of the router it
  made), \<open>register.UpdateRouter\<close>, \<open>defLoader.RegisterAPIs\<close> (with the router the registry
  was bound to at that moment), \<open>plugin.EmitEvent\<close>, the assignment to
  \<open>s.server.Handler\<close>, \<open>net.Listen\<close>, and the three serving calls.
\<close>

datatype 'spec effect =
    OrchestratorInvoked "'spec list option"
  | RouterCreated nat
  | RegistryRebound nat
  | RoutesMaterialized nat "'spec list option"
  | EventEmitted event_name "'spec event"
  | HandlerInstalled nat
  | CloseInvoked
  | Listen nat
  | ServeRedirect nat nat
  | ServeTLS nat string string nat
  | Serve nat nat

text \<open>
  The fields of \<open>Server\<close>, then the router store and the trace. A pointer field that is
  \<open>nil\<close> until \<open>startHTTPServers\<close> sets it is an option. \<open>globalConfig\<close>,
  \<open>statsClient\<close> and \<open>provider\<close> are set by the options given to \<open>New\<close>.
\<close>

record 'spec Server =
  server :: "http_server option"
  provider :: provider
  register :: "proxy_register option"
  defLoader :: "api_loader option"
  started :: bool
  currentConfigurations :: "'spec list option"
  configurationChan :: "'spec configuration_changed chan"
  stopChan :: "bool chan"
  globalConfig :: config_specification
  statsClient :: stats_client
  routers :: "'spec router list"
  trace :: "'spec effect list"

type_synonym 'spec result = "(panic \<times> 'spec Server) + 'spec Server"

text \<open>\<open>New\<close>, with the three values its options set.\<close>

definition New :: "provider \<Rightarrow> config_specification \<Rightarrow> stats_client \<Rightarrow> 'spec Server" where
  "New p cfg st =
     \<lparr>server = None, provider = p, register = None, defLoader = None, started = False,
      currentConfigurations = None,
      configurationChan = make_chan 100,
      stopChan = make_chan 1,
      globalConfig = cfg, statsClient = st, routers = [], trace = []\<rparr>"

text \<open>\<open>traced e s\<close> is \<open>s\<close> with \<open>e\<close> added at the end of the trace.\<close>

definition traced :: "'spec effect \<Rightarrow> 'spec Server \<Rightarrow> 'spec Server" where
  "traced e s = s\<lparr>trace := trace s @ [e]\<rparr>"

subsection \<open>createRouter\<close>

text \<open>
  \<open>createRouter\<close> sets the not-found handler in the default options, makes the router,
  adds the four fixed middlewares in one \<open>Use\<close> call and the request-id middleware in a
  second one when the configuration asks for it. The new router is put in the store; its
  id is the result.
\<close>

definition createRouter :: "'spec Server \<Rightarrow> nat \<times> 'spec Server" where
  "createRouter s =
     (let opts = DefaultOptions\<lparr>NotFoundHandler := Some NotFound\<rparr>;
          r = NewChiRouterWithOptions opts;
          r = Use [NewStats (statsClient s), NewLogger, NewRecovery RecoveryHandler,
                   NewOpenTracing (IsHTTPS (TLS (globalConfig s)))] r;
          r = (if RequestID (globalConfig s) then Use [MiddlewareRequestID] r else r);
          rid = length (routers s)
      in (rid, traced (RouterCreated rid) (s\<lparr>routers := routers s @ [r]\<rparr>)))"

subsection \<open>The registry and the loader\<close>

text \<open>
  Modelled from the spec: \<open>proxy.NewRegister\<close>, \<open>(*proxy.Register).UpdateRouter\<close>,
  \<open>loader.NewAPILoader\<close> and \<open>(*loader.APILoader).RegisterAPIs\<close> are not in this file.
  The spec's Route Registry exposes \<open>bindTo(router)\<close>, which rebases the registry onto the
  router, and \<open>materialize(specs)\<close>, which materializes a route for every entry of the
  snapshot on the currently bound router and replaces the route bindings the registry
  made there before. A call through a \<open>nil\<close> pointer is the nil dereference it leads to.
\<close>

definition NewRegister :: "nat \<Rightarrow> proxy_params \<Rightarrow> proxy_register" where
  "NewRegister r params = \<lparr>regRouter = r, regParams = params\<rparr>"

definition UpdateRouter :: "nat \<Rightarrow> 'spec Server \<Rightarrow> 'spec result" where
  "UpdateRouter r s =
     (case register s of
        None \<Rightarrow> Inl (NilPointerDereference, s)
      | Some reg \<Rightarrow> Inr (traced (RegistryRebound r) (s\<lparr>register := Some (reg\<lparr>regRouter := r\<rparr>)\<rparr>)))"

fun is_ApiRoute :: "'spec route \<Rightarrow> bool" where
  "is_ApiRoute (ApiRoute _) = True"
| "is_ApiRoute (AnyRoute _ _) = False"

definition entries :: "'spec list option \<Rightarrow> 'spec list" where
  "entries specs = (case specs of None \<Rightarrow> [] | Some xs \<Rightarrow> xs)"

definition materialize :: "'spec list option \<Rightarrow> 'spec router \<Rightarrow> 'spec router" where
  "materialize specs r =
     r\<lparr>routes := filter (\<lambda>x. \<not> is_ApiRoute x) (routes r) @ map ApiRoute (entries specs)\<rparr>"

definition RegisterAPIs :: "'spec list option \<Rightarrow> 'spec Server \<Rightarrow> 'spec result" where
  "RegisterAPIs specs s =
     (case defLoader s of
        None \<Rightarrow> Inl (NilPointerDereference, s)
      | Some APILoader \<Rightarrow>
          (case register s of
             None \<Rightarrow> Inl (NilPointerDereference, s)
           | Some reg \<Rightarrow>
               Inr (traced (RoutesMaterialized (regRouter reg) specs)
                     (s\<lparr>routers := (routers s)[regRouter reg :=
                           materialize specs (routers s ! regRouter reg)]\<rparr>))))"

text \<open>Modelled from the spec: \<open>plugin.EmitEvent\<close> notifies the plugins and the caller goes
  on; the file drops its result.\<close>

definition EmitEvent :: "event_name \<Rightarrow> 'spec event \<Rightarrow> 'spec Server \<Rightarrow> 'spec Server" where
  "EmitEvent name ev s = traced (EventEmitted name ev) s"

subsection \<open>handleEvent\<close>

definition handleEvent :: "'spec list option \<Rightarrow> 'spec Server \<Rightarrow> 'spec result" where
  "handleEvent specs s0 =
     (let s = traced (OrchestratorInvoked specs) s0 in
      if \<not> started s then
        (let session = (case provider s of MongoRepository m \<Rightarrow> Some m | OtherRepository \<Rightarrow> None);
             event = OnStartup (statsClient s) (register s) (globalConfig s) specs session;
             s = EmitEvent StartupEvent event s
         in case RegisterAPIs specs s of
              Inl e \<Rightarrow> Inl e
            | Inr s \<Rightarrow> Inr (s\<lparr>started := True\<rparr>))
      else
        (case createRouter s of (newRouter, s) \<Rightarrow>
           (case UpdateRouter newRouter s of
              Inl e \<Rightarrow> Inl e
            | Inr s \<Rightarrow>
               (case RegisterAPIs specs s of
                  Inl e \<Rightarrow> Inl e
                | Inr s \<Rightarrow>
                   (let s = EmitEvent ReloadEvent (OnReload specs) s in
                    case server s of
                      None \<Rightarrow> Inl (NilPointerDereference, s)
                    | Some srv \<Rightarrow>
                        Inr (traced (HandlerInstalled newRouter)
                              (s\<lparr>server := Some (srv\<lparr>Handler := newRouter\<rparr>)\<rparr>)))))))"

subsection \<open>listenProviders\<close>

text \<open>
  One \<open>select\<close> over the two receives. Go takes the only case that can proceed, blocks
  when none can, and picks one of them at random when both can: that choice is the
  argument \<open>p\<close>.
\<close>

datatype pick = PickStop | PickConfig

datatype 'spec selected = StopCase | ConfigCase "'spec configuration_changed option"

definition select :: "pick \<Rightarrow> 'spec Server \<Rightarrow> ('spec selected \<times> 'spec Server) option" where
  "select p s =
     (case (recv (stopChan s), recv (configurationChan s)) of
        (None, None) \<Rightarrow> None
      | (Some (_, c), None) \<Rightarrow> Some (StopCase, s\<lparr>stopChan := c\<rparr>)
      | (None, Some (m, c)) \<Rightarrow> Some (ConfigCase m, s\<lparr>configurationChan := c\<rparr>)
      | (Some (_, c1), Some (m, c2)) \<Rightarrow>
          (case p of
             PickStop \<Rightarrow> Some (StopCase, s\<lparr>stopChan := c1\<rparr>)
           | PickConfig \<Rightarrow> Some (ConfigCase m, s\<lparr>configurationChan := c2\<rparr>)))"

text \<open>
  The loop runs one iteration for each element of the list of choices. It ends with
  \<open>Returned\<close> (a \<open>return\<close> of the code), \<open>Blocked\<close> (no case can proceed: the goroutine
  waits), \<open>Crashed\<close> (a panic in \<open>handleEvent\<close>), or \<open>Running\<close> when the list is used up
  and the loop would go on. \<open>reflect.DeepEqual\<close> on two slices of specifications is
  equality of the two values; a \<open>nil\<close> slice and an empty one differ.

  The other goroutines send on the two channels, close them, or take a value from the
  stop channel (\<open>Wait\<close>); a channel hands its values out in the order they were sent. So
  the channels of the starting state stand for all the loop will find in them, and the
  list of choices for the timing: a run in which a value arrives late is the run in which
  it was there and the other case was chosen.
\<close>

datatype loop_result = Returned | Blocked | Crashed panic | Running

fun listenProviders :: "pick list \<Rightarrow> 'spec Server \<Rightarrow> loop_result \<times> 'spec Server" where
  "listenProviders [] s = (Running, s)"
| "listenProviders (p # ps) s =
     (case select p s of
        None \<Rightarrow> (Blocked, s)
      | Some (StopCase, s) \<Rightarrow> (Returned, s)
      | Some (ConfigCase None, s) \<Rightarrow> (Returned, s)
      | Some (ConfigCase (Some configMsg), s) \<Rightarrow>
          (if Configurations configMsg = None then (Returned, s)
           else if currentConfigurations s = Configurations configMsg
             then listenProviders ps s
           else
             (case handleEvent (Configurations configMsg)
                     (s\<lparr>currentConfigurations := Configurations configMsg\<rparr>) of
                Inl (e, s) \<Rightarrow> (Crashed e, s)
              | Inr s \<Rightarrow> listenProviders ps s)))"

subsection \<open>startHTTPServers and listenAndServe\<close>

text \<open>
  \<open>listenAndServe\<close> stores the new \<open>http.Server\<close>, opens the listener (\<open>listenOK\<close> says
  whether \<open>net.Listen\<close> succeeds) and then blocks in \<open>ServeTLS\<close> or \<open>Serve\<close>. The result
  is the error of a failed \<open>net.Listen\<close>, or the serving call the method is in.
\<close>

datatype serving = ErrOpeningListener | ServingTLS | ServingHTTP

definition listenAndServe :: "bool \<Rightarrow> nat \<Rightarrow> 'spec Server \<Rightarrow> serving \<times> 'spec Server" where
  "listenAndServe listenOK handler s =
     (let address = Port (globalConfig s);
          srv = \<lparr>Addr = address, Handler = handler, srvClosed = False\<rparr>;
          s = s\<lparr>server := Some srv\<rparr>
      in if \<not> listenOK then (ErrOpeningListener, s)
         else
           (let s = traced (Listen address) s;
                tls = TLS (globalConfig s)
            in if IsHTTPS tls then
                 (let s = s\<lparr>server := Some (srv\<lparr>Addr := TLSPort tls\<rparr>)\<rparr>;
                      s = (if Redirect tls then traced (ServeRedirect address (TLSPort tls)) s
                           else s)
                  in (ServingTLS, traced (ServeTLS address (CertFile tls) (KeyFile tls) handler) s))
               else (ServingHTTP, traced (Serve address handler) s)))"

text \<open>
  \<open>startHTTPServers\<close>: the router is created, gets the dummy route when it has none,
  and is handed to the new registry and to \<open>listenAndServe\<close>. \<open>r.Any\<close> acts on the
  router just stored, through its id.
\<close>

definition startHTTPServers :: "bool \<Rightarrow> 'spec Server \<Rightarrow> serving \<times> 'spec Server" where
  "startHTTPServers listenOK s =
     (case createRouter s of (r, s) \<Rightarrow>
        (let s = (if RoutesCount (routers s ! r) < 1
                  then s\<lparr>routers := (routers s)[r := Any ''/'' NotFound (routers s ! r)]\<rparr>
                  else s);
             s = s\<lparr>register := Some (NewRegister r
                    \<lparr>StatsClientParam = statsClient s,
                     FlushInterval = BackendFlushInterval (globalConfig s),
                     IdleConnectionsPerHost = MaxIdleConnsPerHost (globalConfig s),
                     CloseIdleConnsPeriodParam = CloseIdleConnsPeriod (globalConfig s)\<rparr>)\<rparr>;
             s = s\<lparr>defLoader := Some APILoader\<rparr>
         in listenAndServe listenOK r s))"

text \<open>
  Modelled from the spec: how a router answers a request is not in this file. The source
  says of the dummy route that some routers panic on an empty route list, and the spec
  that unmatched requests get the not-found response. A router with no route faults; a
  route registered with \<open>Any\<close> answers the requests for its path with its handler; a
  materialized route answers what the proxy (the parameter \<open>proxy\<close>) answers, when it
  matches; a request no route matches goes to the not-found handler. The answer is the
  HTTP status; \<open>errors.NotFound\<close> answers 404, and so does a router's own fallback.
\<close>

datatype router_fault = EmptyRouteTable

fun handler_status :: "handler \<Rightarrow> nat" where
  "handler_status NotFound = 404"
| "handler_status RouterDefaultNotFound = 404"

fun match_route :: "('spec \<Rightarrow> string \<Rightarrow> nat option) \<Rightarrow> 'spec route list \<Rightarrow> string \<Rightarrow> nat option" where
  "match_route proxy [] path = None"
| "match_route proxy (AnyRoute q h # rs) path =
     (if q = path then Some (handler_status h) else match_route proxy rs path)"
| "match_route proxy (ApiRoute sp # rs) path =
     (case proxy sp path of Some st \<Rightarrow> Some st | None \<Rightarrow> match_route proxy rs path)"

definition ServeHTTP :: "('spec \<Rightarrow> string \<Rightarrow> nat option) \<Rightarrow> 'spec router \<Rightarrow> string \<Rightarrow> router_fault + nat" where
  "ServeHTTP proxy r path =
     (if routes r = [] then Inl EmptyRouteTable
      else (case match_route proxy (routes r) path of
              Some st \<Rightarrow> Inr st
            | None \<Rightarrow> Inr (handler_status (notFoundHandler r))))"

subsection \<open>Close\<close>

text \<open>
  What \<open>s.server.Close()\<close> does is the environment's: it never returns (\<open>Hangs\<close>), or it
  returns an error value (or \<open>nil\<close>) after some nanoseconds. The two channel closes take
  no time in the model.
\<close>

datatype srv_close = Hangs | Yields nat "string option"

datatype body_result = Done nat "string option" | Raised panic | Stuck

text \<open>The three statements after the \<open>go\<close> statement, in the calling goroutine.\<close>

definition Close_body :: "srv_close \<Rightarrow> 'spec Server \<Rightarrow> body_result \<times> 'spec Server" where
  "Close_body env s =
     (case close_chan (stopChan s) of
        None \<Rightarrow> (Raised CloseOfClosedChannel, s)
      | Some c \<Rightarrow>
         (let s = s\<lparr>stopChan := c\<rparr> in
          case close_chan (configurationChan s) of
            None \<Rightarrow> (Raised CloseOfClosedChannel, s)
          | Some c \<Rightarrow>
             (let s = s\<lparr>configurationChan := c\<rparr> in
              case server s of
                None \<Rightarrow> (Raised NilPointerDereference, s)
              | Some srv \<Rightarrow>
                 (case env of
                    Hangs \<Rightarrow> (Stuck, s)
                  | Yields t err \<Rightarrow>
                      (Done t err, s\<lparr>server := Some (srv\<lparr>srvClosed := True\<rparr>)\<rparr>)))))"

text \<open>
  \<open>context.WithTimeout(context.Background(), d)\<close>: the context is done when \<open>cancel\<close> is
  called or when \<open>d\<close> has elapsed, whichever comes first, and \<open>Err\<close> then says which. The
  deferred \<open>cancel\<close> runs when the body is left, by \<open>return\<close> or by a panic. When both
  fall on the same instant the outcome is a race; the model gives it to the deadline, and
  nothing below is stated for that instant.
\<close>

datatype ctx_err = Canceled | DeadlineExceeded

definition second :: nat where
  "second = 1000000000"

definition closeTimeout :: nat where
  "closeTimeout = 10 * second"

definition cancelledAt :: "body_result \<Rightarrow> nat option" where
  "cancelledAt r = (case r of Done t _ \<Rightarrow> Some t | Raised _ \<Rightarrow> Some 0 | Stuck \<Rightarrow> None)"

definition WithTimeout :: "nat \<Rightarrow> nat option \<Rightarrow> ctx_err" where
  "WithTimeout d cancelled =
     (case cancelled of
        None \<Rightarrow> DeadlineExceeded
      | Some t \<Rightarrow> if t < d then Canceled else DeadlineExceeded)"

text \<open>The goroutine \<open>Close\<close> starts: it waits for the context and panics on a deadline.\<close>

datatype supervisor_end = ExitsQuietly | KillsInstance

definition Close_supervisor :: "ctx_err \<Rightarrow> supervisor_end" where
  "Close_supervisor err =
     (if err = Canceled then ExitsQuietly
      else if err = DeadlineExceeded then KillsInstance
      else ExitsQuietly)"

text \<open>
  \<open>Close\<close> as its caller and the process see it: it returns the error of
  \<open>s.server.Close()\<close>, it panics in the calling goroutine, or the supervising goroutine
  panics, which ends the process (\<open>Aborted\<close>).
\<close>

datatype close_result = Returns "string option" | Panics panic | Aborted | NeverReturns

definition Close :: "srv_close \<Rightarrow> 'spec Server \<Rightarrow> close_result \<times> 'spec Server" where
  "Close env s =
     (case Close_body env (traced CloseInvoked s) of (r, s) \<Rightarrow>
        (case Close_supervisor (WithTimeout closeTimeout (cancelledAt r)) of
           KillsInstance \<Rightarrow> (Aborted, s)
         | ExitsQuietly \<Rightarrow>
             (case r of
                Done t err \<Rightarrow> (Returns err, s)
              | Raised e \<Rightarrow> (Panics e, s)
              | Stuck \<Rightarrow> (NeverReturns, s))))"

subsection \<open>StartWithContext: the shutdown on a done context\<close>

text \<open>
  The second goroutine of \<open>StartWithContext\<close> runs \<open>startHTTPServers\<close> and calls
  \<open>log.Fatal\<close> on the error it returns, which exits the process with status 1. \<open>Serve\<close> and
  \<open>ServeTLS\<close> return only with an error; once \<open>Close\<close> has run on the \<open>http.Server\<close> they
  return \<open>ErrServerClosed\<close>, so the exit is then due. A call of \<open>s.server.Close()\<close> that
  hangs is taken not to have made them return.
\<close>

definition httpFatalDue :: "'spec Server \<Rightarrow> bool" where
  "httpFatalDue s = (case server s of None \<Rightarrow> False | Some srv \<Rightarrow> srvClosed srv)"

text \<open>
  The first goroutine of \<open>StartWithContext\<close>, from the moment \<open>ctx.Done()\<close> delivers: it
  sleeps for the grace period, calls \<open>s.Close()\<close>, and on leaving runs the deferred
  \<open>s.Close()\<close>. A deferred call runs after a \<open>return\<close> and after a panic of its own
  goroutine; it does not run when the process has been ended or the call before it never
  comes back. A deferred call that returns leaves an earlier panic standing.

  Once the first call has closed the HTTP server, the exit of the second goroutine and the
  deferred call of the first race: which comes first is the argument \<open>race\<close>.
\<close>

datatype race = DeferredCloseFirst | FatalFirst

datatype goroutine_end = Exits | PanicsWith panic | ProcessAborted | ProcessExited | NeverEnds

definition StartWithContext_onDone ::
    "race \<Rightarrow> srv_close \<Rightarrow> srv_close \<Rightarrow> 'spec Server \<Rightarrow> goroutine_end \<times> 'spec Server" where
  "StartWithContext_onDone race env1 env2 s =
     (case Close env1 s of
        (Aborted, s) \<Rightarrow> (ProcessAborted, s)
      | (NeverReturns, s) \<Rightarrow> (NeverEnds, s)
      | (r1, s) \<Rightarrow>
          if httpFatalDue s \<and> race = FatalFirst then (ProcessExited, s)
          else
            (case Close env2 s of
               (Aborted, s) \<Rightarrow> (ProcessAborted, s)
             | (NeverReturns, s) \<Rightarrow> (NeverEnds, s)
             | (Panics e, s) \<Rightarrow> (PanicsWith e, s)
             | (Returns _, s) \<Rightarrow>
                 if httpFatalDue s then (ProcessExited, s)
                 else (case r1 of Panics e \<Rightarrow> (PanicsWith e, s) | _ \<Rightarrow> (Exits, s))))"

subsection \<open>Reading the trace\<close>

text \<open>
  The snapshots \<open>handleEvent\<close> was entered with, and the lifecycle events emitted (the
  event name and the snapshot its payload carries), both oldest first.
\<close>

definition handled :: "'spec effect list \<Rightarrow> 'spec list option list" where
  "handled tr = concat (map (\<lambda>e. case e of OrchestratorInvoked c \<Rightarrow> [c] | _ \<Rightarrow> []) tr)"

fun snapshot_of :: "'spec event \<Rightarrow> 'spec list option" where
  "snapshot_of (OnStartup st reg cfg specs session) = specs"
| "snapshot_of (OnReload specs) = specs"

definition emitted :: "'spec effect list \<Rightarrow> (event_name \<times> 'spec list option) list" where
  "emitted tr =
     concat (map (\<lambda>e. case e of EventEmitted n ev \<Rightarrow> [(n, snapshot_of ev)] | _ \<Rightarrow> []) tr)"

definition closeCalls :: "'spec effect list \<Rightarrow> nat" where
  "closeCalls tr = length (filter (\<lambda>e. e = CloseInvoked) tr)"

text \<open>
  The events the spec expects for a sequence of accepted snapshots: \<open>Startup\<close> for the
  first one of a server that has not started, \<open>Reload\<close> for every other one.
\<close>

fun lifecycle :: "bool \<Rightarrow> 'spec list option list \<Rightarrow> (event_name \<times> 'spec list option) list" where
  "lifecycle st [] = []"
| "lifecycle st (c # cs) = ((if st then ReloadEvent else StartupEvent), c) # lifecycle True cs"

text \<open>The router \<open>createRouter\<close> stores, written out.\<close>

definition builtRouter :: "'spec Server \<Rightarrow> 'spec router" where
  "builtRouter s =
     \<lparr>notFoundHandler = NotFound,
      middlewares = [NewStats (statsClient s), NewLogger, NewRecovery RecoveryHandler,
        NewOpenTracing (IsHTTPS (TLS (globalConfig s)))] @
        (if RequestID (globalConfig s) then [MiddlewareRequestID] else []),
      routes = []\<rparr>"

subsection \<open>A small server to run the model on\<close>

text \<open>
  A plain-HTTP configuration with request ids on; the server \<open>New\<close> makes from it; and
  that server once \<open>startHTTPServers\<close> is serving. \<open>pending\<close> puts messages in the
  configuration channel, as the provider's sends do, and \<open>stopSignalled\<close> a value in the
  stop channel, as the send in \<open>Stop\<close> does. \<open>demoStarted\<close> is the serving server after
  the loop has taken a first snapshot, \<open>[routeA]\<close>, and \<open>demoClosed\<close> that one after a
  call of \<open>Close\<close> that came back at once.
\<close>

definition demoConfig :: config_specification where
  "demoConfig =
     \<lparr>Port = 8080,
      TLS = \<lparr>IsHTTPS = False, TLSPort = 8433, Redirect = False, CertFile = [], KeyFile = []\<rparr>,
      GraceTimeOut = 0, RequestID = True, BackendFlushInterval = 20000000,
      MaxIdleConnsPerHost = 64, CloseIdleConnsPeriod = 0\<rparr>"

definition demoServer :: "string Server" where
  "demoServer = New OtherRepository demoConfig (StatsClient 0)"

definition demoRunning :: "string Server" where
  "demoRunning = snd (startHTTPServers True demoServer)"

definition message :: "'spec list option \<Rightarrow> 'spec configuration_changed" where
  "message c = \<lparr>Configurations = c\<rparr>"

definition pending :: "'spec configuration_changed list \<Rightarrow> 'spec Server \<Rightarrow> 'spec Server" where
  "pending ms s = s\<lparr>configurationChan := (configurationChan s)\<lparr>buf := ms\<rparr>\<rparr>"

definition stopSignalled :: "'spec Server \<Rightarrow> 'spec Server" where
  "stopSignalled s = s\<lparr>stopChan := (stopChan s)\<lparr>buf := [True]\<rparr>\<rparr>"

definition msgA :: "string configuration_changed" where
  "msgA = message (Some [''routeA''])"

definition msgAB :: "string configuration_changed" where
  "msgAB = message (Some [''routeA'', ''routeB''])"

definition demoStarted :: "string Server" where
  "demoStarted = snd (listenProviders [PickConfig] (pending [msgA] demoRunning))"

definition demoClosed :: "string Server" where
  "demoClosed = snd (Close (Yields 0 None) demoStarted)"

section \<open>Properties\<close>

subsection \<open>Auxiliary facts\<close>

lemma handled_append [simp]: "handled (xs @ ys) = handled xs @ handled ys"
  by (simp add: handled_def)

lemma emitted_append [simp]: "emitted (xs @ ys) = emitted xs @ emitted ys"
  by (simp add: emitted_def)

lemma trace_traced [simp]: "trace (traced e s) = trace s @ [e]"
  by (simp add: traced_def)

lemma traced_fields [simp]:
  "server (traced e s) = server s" "register (traced e s) = register s"
  "defLoader (traced e s) = defLoader s" "started (traced e s) = started s"
  "routers (traced e s) = routers s" "provider (traced e s) = provider s"
  "currentConfigurations (traced e s) = currentConfigurations s"
  "configurationChan (traced e s) = configurationChan s"
  "stopChan (traced e s) = stopChan s"
  "globalConfig (traced e s) = globalConfig s" "statsClient (traced e s) = statsClient s"
  by (simp_all add: traced_def)

lemma createRouter_eq:
  "createRouter s =
     (length (routers s),
      traced (RouterCreated (length (routers s))) (s\<lparr>routers := routers s @ [builtRouter s]\<rparr>))"
  by (simp add: createRouter_def Let_def Use_def NewChiRouterWithOptions_def
      DefaultOptions_def builtRouter_def)

lemma builtRouter_frame [simp]:
  "builtRouter (s\<lparr>trace := t\<rparr>) = builtRouter s"
  "builtRouter (s\<lparr>routers := rs\<rparr>) = builtRouter s"
  "builtRouter (traced e s) = builtRouter s"
  by (simp_all add: builtRouter_def traced_def)

lemma materialize_builtRouter [simp]:
  "routes (materialize specs (builtRouter s)) = map ApiRoute (entries specs)"
  by (simp add: materialize_def builtRouter_def)

lemmas handleEvent_unfold =
  handleEvent_def Let_def createRouter_eq UpdateRouter_def RegisterAPIs_def EmitEvent_def traced_def

text \<open>\<open>handleEvent\<close> on a server that has not started.\<close>

lemma handleEvent_cold_ok:
  assumes "\<not> started s" "defLoader s = Some l" "register s = Some reg"
  shows "handleEvent specs s =
     Inr (s\<lparr>routers := (routers s)[regRouter reg := materialize specs (routers s ! regRouter reg)],
            trace := trace s @ [OrchestratorInvoked specs,
              EventEmitted StartupEvent
                (OnStartup (statsClient s) (register s) (globalConfig s) specs
                  (case provider s of MongoRepository m \<Rightarrow> Some m | OtherRepository \<Rightarrow> None)),
              RoutesMaterialized (regRouter reg) specs],
            started := True\<rparr>)"
  using assms
  by (cases l) (simp add: handleEvent_def Let_def EmitEvent_def RegisterAPIs_def traced_def)

lemma handleEvent_cold_panic:
  assumes "\<not> started s" "defLoader s = None \<or> register s = None"
  shows "handleEvent specs s =
     Inl (NilPointerDereference,
          s\<lparr>trace := trace s @ [OrchestratorInvoked specs,
              EventEmitted StartupEvent
                (OnStartup (statsClient s) (register s) (globalConfig s) specs
                  (case provider s of MongoRepository m \<Rightarrow> Some m | OtherRepository \<Rightarrow> None))]\<rparr>)"
  using assms
  by (auto simp add: handleEvent_def Let_def EmitEvent_def RegisterAPIs_def traced_def
      split: option.splits api_loader.splits)

text \<open>\<open>handleEvent\<close> on a started server: the full run, and the three places where a
  \<open>nil\<close> pointer stops it.\<close>

lemma handleEvent_warm_ok:
  assumes "started s" "register s = Some reg" "defLoader s = Some l" "server s = Some srv"
  shows "handleEvent specs s =
     Inr (s\<lparr>server := Some (srv\<lparr>Handler := length (routers s)\<rparr>),
            register := Some (reg\<lparr>regRouter := length (routers s)\<rparr>),
            routers := routers s @ [materialize specs (builtRouter s)],
            trace := trace s @ [OrchestratorInvoked specs,
              RouterCreated (length (routers s)),
              RegistryRebound (length (routers s)),
              RoutesMaterialized (length (routers s)) specs,
              EventEmitted ReloadEvent (OnReload specs),
              HandlerInstalled (length (routers s))]\<rparr>)"
  using assms
  by (cases l)
    (simp add: handleEvent_def Let_def createRouter_eq UpdateRouter_def RegisterAPIs_def
      EmitEvent_def traced_def)

lemma handleEvent_warm_no_register:
  assumes "started s" "register s = None"
  shows "handleEvent specs s =
     Inl (NilPointerDereference,
          s\<lparr>routers := routers s @ [builtRouter s],
            trace := trace s @ [OrchestratorInvoked specs, RouterCreated (length (routers s))]\<rparr>)"
  using assms
  by (simp add: handleEvent_def Let_def createRouter_eq UpdateRouter_def traced_def)

lemma handleEvent_warm_no_loader:
  assumes "started s" "register s = Some reg" "defLoader s = None"
  shows "handleEvent specs s =
     Inl (NilPointerDereference,
          s\<lparr>register := Some (reg\<lparr>regRouter := length (routers s)\<rparr>),
            routers := routers s @ [builtRouter s],
            trace := trace s @ [OrchestratorInvoked specs, RouterCreated (length (routers s)),
              RegistryRebound (length (routers s))]\<rparr>)"
  using assms
  by (simp add: handleEvent_def Let_def createRouter_eq UpdateRouter_def RegisterAPIs_def
      traced_def)

lemma handleEvent_warm_no_server:
  assumes "started s" "register s = Some reg" "defLoader s = Some l" "server s = None"
  shows "handleEvent specs s =
     Inl (NilPointerDereference,
          s\<lparr>register := Some (reg\<lparr>regRouter := length (routers s)\<rparr>),
            routers := routers s @ [materialize specs (builtRouter s)],
            trace := trace s @ [OrchestratorInvoked specs,
              RouterCreated (length (routers s)),
              RegistryRebound (length (routers s)),
              RoutesMaterialized (length (routers s)) specs,
              EventEmitted ReloadEvent (OnReload specs)]\<rparr>)"
  using assms
  by (cases l)
    (simp add: handleEvent_def Let_def createRouter_eq UpdateRouter_def RegisterAPIs_def
      EmitEvent_def traced_def)

text \<open>What \<open>handleEvent\<close> leaves alone, and what it adds to the trace.\<close>

lemma handleEvent_Inr_frame:
  assumes "handleEvent specs s = Inr s'"
  shows "currentConfigurations s' = currentConfigurations s"
    and "configurationChan s' = configurationChan s"
    and "stopChan s' = stopChan s"
    and "started s'"
    and "register s' \<noteq> None" and "defLoader s' \<noteq> None"
    and "handled (trace s') = handled (trace s) @ [specs]"
  using assms
  by (auto simp add: handleEvent_unfold handled_def
      split: option.splits api_loader.splits if_splits)

lemma handleEvent_Inl_handled:
  assumes "handleEvent specs s = Inl (e, s')"
  shows "handled (trace s') = handled (trace s) @ [specs]"
  using assms
  by (auto simp add: handleEvent_unfold handled_def
      split: option.splits api_loader.splits if_splits)

text \<open>The channels and the \<open>select\<close>.\<close>

lemma recv_Cons [simp]: "buf c = x # xs \<Longrightarrow> recv c = Some (Some x, c\<lparr>buf := xs\<rparr>)"
  by (simp add: recv_def)

lemma recv_drained [simp]: "buf c = [] \<Longrightarrow> recv c = (if isClosed c then Some (None, c) else None)"
  by (simp add: recv_def)

lemma select_StopCase:
  assumes "select p s = Some (StopCase, s1)"
  shows "\<exists>v c. recv (stopChan s) = Some (v, c) \<and> s1 = s\<lparr>stopChan := c\<rparr>"
  using assms
  by (auto simp add: select_def split: option.splits pick.splits prod.splits)

lemma select_ConfigCase:
  assumes "select p s = Some (ConfigCase m, s1)"
  shows "\<exists>c. recv (configurationChan s) = Some (m, c) \<and> s1 = s\<lparr>configurationChan := c\<rparr>"
  using assms
  by (auto simp add: select_def split: option.splits pick.splits prod.splits)

text \<open>The loop: what a run adds to the trace.\<close>


lemma handleEvent_trace:
  assumes "started s \<longrightarrow> register s \<noteq> None \<and> defLoader s \<noteq> None"
  shows "\<exists>new. trace (case handleEvent specs s of Inr s' \<Rightarrow> s' | Inl (e, s') \<Rightarrow> s') = trace s @ new \<and>
           handled new = [specs] \<and> emitted new = lifecycle (started s) [specs]"
  using assms
  by (auto simp add: handleEvent_unfold emitted_def handled_def
      split: option.splits api_loader.splits if_splits sum.splits)

lemma lifecycle_Cons_handled:
  assumes "handled new1 = [c]" "emitted new1 = lifecycle st [c]"
    and "emitted new2 = lifecycle True (handled new2)"
  shows "emitted (new1 @ new2) = lifecycle st (handled (new1 @ new2))"
  using assms by simp

lemma select_frame:
  assumes "select p s = Some (c, s1)"
  shows "trace s1 = trace s" "started s1 = started s" "register s1 = register s"
    "defLoader s1 = defLoader s"
  using assms
  by (auto simp add: select_def split: option.splits pick.splits prod.splits)

lemma listenProviders_lifecycle:
  assumes "started s \<longrightarrow> register s \<noteq> None \<and> defLoader s \<noteq> None"
  shows "\<exists>new. trace (snd (listenProviders ps s)) = trace s @ new \<and>
           emitted new = lifecycle (started s) (handled new) \<and>
           ((\<forall>e. fst (listenProviders ps s) \<noteq> Crashed e) \<longrightarrow>
              started (snd (listenProviders ps s)) = (started s \<or> handled new \<noteq> []))"
  using assms
proof (induction ps arbitrary: s)
  case Nil
  show ?case by (simp add: handled_def emitted_def)
next
  case (Cons p ps)
  have triv: "\<And>r s1. listenProviders (p # ps) s = (r, s1) \<Longrightarrow> (\<forall>e. r \<noteq> Crashed e) \<Longrightarrow>
      trace s1 = trace s \<Longrightarrow> started s1 = started s \<Longrightarrow> ?case"
    by (rule exI [of _ "[]"]) (simp add: handled_def emitted_def)
  show ?case
  proof (cases "select p s")
    case None
    then show ?thesis by (intro triv [of Blocked s]) simp_all
  next
    case (Some a)
    obtain c s1 where a: "a = (c, s1)" by (cases a)
    note fr = select_frame [OF Some [unfolded a]]
    show ?thesis
    proof (cases c)
      case StopCase
      with Some a fr show ?thesis by (intro triv [of Returned s1]) simp_all
    next
      case (ConfigCase mo)
      show ?thesis
      proof (cases mo)
        case None
        with Some a fr ConfigCase show ?thesis by (intro triv [of Returned s1]) simp_all
      next
        case (Some m)
        note m = Some
        show ?thesis
        proof (cases "Configurations m = None")
          case True
          with \<open>select p s = Some a\<close> a fr ConfigCase m show ?thesis
            by (intro triv [of Returned s1]) simp_all
        next
          case False
          then obtain cfg where nonnil: "Configurations m = Some cfg" by auto
          show ?thesis
          proof (cases "currentConfigurations s1 = Configurations m")
            case True
            have eq: "listenProviders (p # ps) s = listenProviders ps s1"
              using \<open>select p s = Some a\<close> a ConfigCase m nonnil True by simp
            from Cons.IH [of s1] Cons.prems fr show ?thesis
              unfolding eq by simp
          next
            case False
            let ?s2 = "s1\<lparr>currentConfigurations := Configurations m\<rparr>"
            have inv2: "started ?s2 \<longrightarrow> register ?s2 \<noteq> None \<and> defLoader ?s2 \<noteq> None"
              using Cons.prems fr by simp
            from handleEvent_trace [OF inv2, of "Configurations m"]
            obtain new1 where new1:
              "trace (case handleEvent (Configurations m) ?s2 of Inr s' \<Rightarrow> s' | Inl (e, s') \<Rightarrow> s')
                = trace ?s2 @ new1"
              "handled new1 = [Configurations m]"
              "emitted new1 = lifecycle (started ?s2) [Configurations m]"
              by blast
            show ?thesis
            proof (cases "handleEvent (Configurations m) ?s2")
              case (Inl e)
              obtain f s3 where e: "e = (f, s3)" by (cases e)
              have eq: "listenProviders (p # ps) s = (Crashed f, s3)"
                using \<open>select p s = Some a\<close> a ConfigCase m nonnil False Inl e by simp
              from new1 Inl e fr have "trace s3 = trace s @ new1"
                "emitted new1 = lifecycle (started s) (handled new1)" by simp_all
              then show ?thesis unfolding eq by (intro exI [of _ new1]) simp
            next
              case (Inr s3)
              have eq: "listenProviders (p # ps) s = listenProviders ps s3"
                using \<open>select p s = Some a\<close> a ConfigCase m nonnil False Inr by simp
              from handleEvent_Inr_frame [OF Inr]
              have s3: "started s3" "register s3 \<noteq> None" "defLoader s3 \<noteq> None" by simp_all
              from Cons.IH [of s3] s3 obtain new2 where new2:
                "trace (snd (listenProviders ps s3)) = trace s3 @ new2"
                "emitted new2 = lifecycle True (handled new2)"
                "(\<forall>e. fst (listenProviders ps s3) \<noteq> Crashed e) \<longrightarrow>
                   started (snd (listenProviders ps s3))"
                by auto
              from new1 Inr fr have t3: "trace s3 = trace s @ new1"
                and e1: "emitted new1 = lifecycle (started s) [Configurations m]" by simp_all
              have "emitted (new1 @ new2) = lifecycle (started s) (handled (new1 @ new2))"
                using new1(2) e1 new2(2) by (rule lifecycle_Cons_handled)
              with t3 new2 new1(2) show ?thesis
                unfolding eq by (intro exI [of _ "new1 @ new2"]) simp
            qed
          qed
        qed
      qed
    qed
  qed
qed

text \<open>The loop on a run of equal messages.\<close>

lemma dup_run_silent:
  assumes "currentConfigurations s = Configurations m"
    and "buf (configurationChan s) = replicate k m @ rest"
    and "length ps \<le> k"
  shows "trace (snd (listenProviders ps s)) = trace s"
  using assms
proof (induction ps arbitrary: s k)
  case Nil
  then show ?case by simp
next
  case (Cons p ps)
  then obtain k' where k: "k = Suc k'" by (cases k) auto
  show ?case
  proof (cases "select p s")
    case None
    then show ?thesis by simp
  next
    case (Some a)
    obtain c s1 where a: "a = (c, s1)" by (cases a)
    show ?thesis
    proof (cases c)
      case StopCase
      with Some a select_StopCase [of p s s1] show ?thesis by auto
    next
      case (ConfigCase mo)
      with Some a select_ConfigCase [of p s mo s1]
      obtain ch where ch: "recv (configurationChan s) = Some (mo, ch)"
        and s1: "s1 = s\<lparr>configurationChan := ch\<rparr>" by auto
      from Cons.prems(2) k have b: "buf (configurationChan s) = m # (replicate k' m @ rest)"
        by simp
      from ch recv_Cons [OF b] have mo: "mo = Some m"
        and chb: "ch = (configurationChan s)\<lparr>buf := replicate k' m @ rest\<rparr>" by auto
      show ?thesis
      proof (cases "Configurations m = None")
        case True
        with Some a ConfigCase mo s1 show ?thesis by simp
      next
        case False
        have "trace (snd (listenProviders ps s1)) = trace s1"
          using Cons.IH [of s1 k'] Cons.prems k s1 chb by simp
        with Some a ConfigCase mo s1 False Cons.prems(1) show ?thesis by simp
      qed
    qed
  qed
qed

lemma dup_run_once:
  assumes "buf (configurationChan s) = replicate k m @ rest"
    and "length ps \<le> k"
  shows "length (handled (trace (snd (listenProviders ps s)))) \<le> length (handled (trace s)) + 1"
  using assms
proof (induction ps arbitrary: s k)
  case Nil
  then show ?case by simp
next
  case (Cons p ps)
  then obtain k' where k: "k = Suc k'" by (cases k) auto
  show ?case
  proof (cases "select p s")
    case None
    then show ?thesis by simp
  next
    case (Some a)
    obtain c s1 where a: "a = (c, s1)" by (cases a)
    show ?thesis
    proof (cases c)
      case StopCase
      with Some a select_StopCase [of p s s1] show ?thesis by auto
    next
      case (ConfigCase mo)
      with Some a select_ConfigCase [of p s mo s1]
      obtain ch where ch: "recv (configurationChan s) = Some (mo, ch)"
        and s1: "s1 = s\<lparr>configurationChan := ch\<rparr>" by auto
      from Cons.prems(1) k have b: "buf (configurationChan s) = m # (replicate k' m @ rest)"
        by simp
      from ch recv_Cons [OF b] have mo: "mo = Some m"
        and chb: "ch = (configurationChan s)\<lparr>buf := replicate k' m @ rest\<rparr>" by auto
      have len: "length ps \<le> k'" using Cons.prems(2) k by simp
      have b1: "buf (configurationChan s1) = replicate k' m @ rest" using s1 chb by simp
      show ?thesis
      proof (cases "Configurations m = None")
        case True
        with Some a ConfigCase mo s1 show ?thesis by simp
      next
        case False
        note nonnil = False
        show ?thesis
        proof (cases "currentConfigurations s1 = Configurations m")
          case True
          have "length (handled (trace (snd (listenProviders ps s1)))) \<le> length (handled (trace s1)) + 1"
            using Cons.IH [OF b1 len] .
          with Some a ConfigCase mo s1 nonnil True show ?thesis by simp
        next
          case False
          let ?s2 = "s1\<lparr>currentConfigurations := Configurations m\<rparr>"
          show ?thesis
          proof (cases "handleEvent (Configurations m) ?s2")
            case (Inl e)
            obtain f s3 where e: "e = (f, s3)" by (cases e)
            from handleEvent_Inl_handled [of "Configurations m" ?s2 f s3] Inl e
            have "handled (trace s3) = handled (trace s1) @ [Configurations m]" by simp
            with Some a ConfigCase mo s1 nonnil False Inl e show ?thesis by simp
          next
            case (Inr s3)
            from handleEvent_Inr_frame [OF Inr]
            have cur: "currentConfigurations s3 = Configurations m"
              and chan: "configurationChan s3 = configurationChan s1"
              and h: "handled (trace s3) = handled (trace s1) @ [Configurations m]"
              by simp_all
            have "trace (snd (listenProviders ps s3)) = trace s3"
              using dup_run_silent [OF cur _ len, of rest] chan b1 by simp
            with Some a ConfigCase mo s1 nonnil False Inr h show ?thesis by simp
          qed
        qed
      qed
    qed
  qed
qed

text \<open>The small server, evaluated.\<close>

lemma demoRunning_eq:
  "demoRunning =
     \<lparr>server = Some \<lparr>Addr = 8080, Handler = 0, srvClosed = False\<rparr>,
      provider = OtherRepository,
      register = Some \<lparr>regRouter = 0, regParams =
        \<lparr>StatsClientParam = StatsClient 0, FlushInterval = 20000000,
         IdleConnectionsPerHost = 64, CloseIdleConnsPeriodParam = 0\<rparr>\<rparr>,
      defLoader = Some APILoader, started = False, currentConfigurations = None,
      configurationChan = \<lparr>buf = [], capacity = 100, isClosed = False\<rparr>,
      stopChan = \<lparr>buf = [], capacity = 1, isClosed = False\<rparr>,
      globalConfig = demoConfig, statsClient = StatsClient 0,
      routers = [\<lparr>notFoundHandler = NotFound,
        middlewares = [NewStats (StatsClient 0), NewLogger, NewRecovery RecoveryHandler,
          NewOpenTracing False, MiddlewareRequestID],
        routes = [AnyRoute ''/'' NotFound]\<rparr>],
      trace = [RouterCreated 0, Listen 8080, Serve 8080 0]\<rparr>"
  by (simp add: demoRunning_def startHTTPServers_def createRouter_eq builtRouter_def
      listenAndServe_def demoServer_def New_def make_chan_def demoConfig_def traced_def
      RoutesCount_def Any_def NewRegister_def Let_def)

lemmas run_simps =
  pending_def message_def msgA_def msgAB_def select_def recv_def
  handleEvent_unfold builtRouter_def materialize_def entries_def

lemma demoStarted_eq:
  "demoStarted =
     demoRunning\<lparr>started := True, currentConfigurations := Some [''routeA''],
       routers := [\<lparr>notFoundHandler = NotFound,
         middlewares = [NewStats (StatsClient 0), NewLogger, NewRecovery RecoveryHandler,
           NewOpenTracing False, MiddlewareRequestID],
         routes = [AnyRoute ''/'' NotFound, ApiRoute ''routeA'']\<rparr>],
       trace := [RouterCreated 0, Listen 8080, Serve 8080 0,
         OrchestratorInvoked (Some [''routeA'']),
         EventEmitted StartupEvent
           (OnStartup (StatsClient 0) (register demoRunning) demoConfig (Some [''routeA'']) None),
         RoutesMaterialized 0 (Some [''routeA''])]\<rparr>"
  by (simp add: demoStarted_def demoRunning_eq run_simps)

lemma demoStarted_fields:
  "started demoStarted"
  "server demoStarted = Some \<lparr>Addr = 8080, Handler = 0, srvClosed = False\<rparr>"
  "register demoStarted \<noteq> None" "defLoader demoStarted \<noteq> None"
  "length (routers demoStarted) = 1"
  "currentConfigurations demoStarted = Some [''routeA'']"
  by (simp_all add: demoStarted_eq demoRunning_eq)

lemma lifecycle_True_names:
  "filter (\<lambda>e. fst e = StartupEvent) (lifecycle True cs) = []"
  "length (filter (\<lambda>e. fst e = ReloadEvent) (lifecycle True cs)) = length cs"
  by (induction cs) simp_all

lemma lifecycle_False_names:
  "length (filter (\<lambda>e. fst e = StartupEvent) (lifecycle False cs)) = (if cs = [] then 0 else 1)"
  "length (filter (\<lambda>e. fst e = ReloadEvent) (lifecycle False cs)) = length cs - 1"
  by (cases cs; simp add: lifecycle_True_names)+

lemma demoQueue_trace:
  "trace (snd (listenProviders [PickConfig, PickConfig, PickConfig]
      (pending [msgA, msgA, msgAB] demoRunning))) =
   trace (pending [msgA, msgA, msgAB] demoRunning) @
   [OrchestratorInvoked (Some [''routeA'']),
    EventEmitted StartupEvent
      (OnStartup (StatsClient 0) (register demoRunning) demoConfig (Some [''routeA'']) None),
    RoutesMaterialized 0 (Some [''routeA'']),
    OrchestratorInvoked (Some [''routeA'', ''routeB'']), RouterCreated 1,
    RegistryRebound 1, RoutesMaterialized 1 (Some [''routeA'', ''routeB'']),
    EventEmitted ReloadEvent (OnReload (Some [''routeA'', ''routeB''])),
    HandlerInstalled 1]"
  by (simp add: demoRunning_eq run_simps)

text \<open>\<open>startHTTPServers\<close>, written out.\<close>

lemma listenAndServe_frame:
  "routers (snd (listenAndServe listenOK h s)) = routers s"
  "register (snd (listenAndServe listenOK h s)) = register s"
  "defLoader (snd (listenAndServe listenOK h s)) = defLoader s"
  "started (snd (listenAndServe listenOK h s)) = started s"
  "map_option Handler (server (snd (listenAndServe listenOK h s))) = Some h"
  by (simp_all add: listenAndServe_def Let_def)

lemma startHTTPServers_eq:
  "startHTTPServers listenOK s =
     listenAndServe listenOK (length (routers s))
       ((traced (RouterCreated (length (routers s))) s)
          \<lparr>routers := routers s @ [Any ''/'' NotFound (builtRouter s)],
           register := Some (NewRegister (length (routers s))
             \<lparr>StatsClientParam = statsClient s,
              FlushInterval = BackendFlushInterval (globalConfig s),
              IdleConnectionsPerHost = MaxIdleConnsPerHost (globalConfig s),
              CloseIdleConnsPeriodParam = CloseIdleConnsPeriod (globalConfig s)\<rparr>),
           defLoader := Some APILoader\<rparr>)"
  by (simp add: startHTTPServers_def createRouter_eq RoutesCount_def builtRouter_def Let_def
      traced_def)

text \<open>\<open>Close\<close>: the channels afterwards, and a call on closed channels.\<close>

lemma closeTimeout_pos [simp]: "0 < closeTimeout"
  by (simp add: closeTimeout_def second_def)

lemma Close_body_stopChan_closed: "isClosed (stopChan (snd (Close_body env s)))"
  by (simp add: Close_body_def close_chan_def Let_def
      split: option.splits srv_close.splits if_splits)

lemma Close_body_trace: "trace (snd (Close_body env s)) = trace s"
  by (simp add: Close_body_def close_chan_def Let_def
      split: option.splits srv_close.splits if_splits)

lemma Close_snd: "snd (Close env s) = snd (Close_body env (traced CloseInvoked s))"
  by (simp add: Close_def split: prod.splits supervisor_end.splits body_result.splits)

lemma Close_fst:
  "fst (Close env s) =
     (case fst (Close_body env (traced CloseInvoked s)) of
        Done t err \<Rightarrow> if t < closeTimeout then Returns err else Aborted
      | Raised e \<Rightarrow> Panics e
      | Stuck \<Rightarrow> Aborted)"
proof (cases "Close_body env (traced CloseInvoked s)")
  case (Pair r s1)
  then show ?thesis
    by (cases r)
      (simp_all add: Close_def cancelledAt_def WithTimeout_def Close_supervisor_def)
qed

lemma Close_stopChan_closed: "isClosed (stopChan (snd (Close env s)))"
  by (simp add: Close_snd Close_body_stopChan_closed)

lemma Close_configurationChan_closed:
  assumes "isClosed (stopChan s) \<longrightarrow> isClosed (configurationChan s)"
  shows "isClosed (configurationChan (snd (Close env s)))"
  using assms
  by (simp add: Close_snd Close_body_def close_chan_def Let_def traced_def
      split: option.splits srv_close.splits if_splits)

lemma Close_trace: "trace (snd (Close env s)) = trace s @ [CloseInvoked]"
  by (simp add: Close_snd Close_body_trace)

lemma Close_on_closed:
  assumes "isClosed (stopChan s)"
  shows "Close env s = (Panics CloseOfClosedChannel, traced CloseInvoked s)"
  using assms
  by (simp add: Close_def Close_body_def close_chan_def cancelledAt_def WithTimeout_def
      Close_supervisor_def)

lemma Close_never_NeverReturns: "fst (Close env s) \<noteq> NeverReturns"
  by (auto simp add: Close_def cancelledAt_def WithTimeout_def Close_supervisor_def
      split: prod.splits supervisor_end.splits body_result.splits if_splits)

lemma closeCalls_append [simp]: "closeCalls (xs @ ys) = closeCalls xs + closeCalls ys"
  by (simp add: closeCalls_def)

lemma closeCalls_single [simp]: "closeCalls [CloseInvoked] = 1"
  by (simp add: closeCalls_def)

subsection \<open>The router builder\<close>

text \<open>
  C9. Every router \<open>createRouter\<close> produces has the custom not-found handler,
  \<open>errors.NotFound\<close>, which is not the fallback a router made from the default options
  has; and its middleware chain is, in this order: stats, request logging, panic
  recovery, tracing (told whether TLS is active), and then the request-id middleware if
  and only if the configuration enables it.
\<close>

theorem createRouter_middleware_chain:
  "let r = routers (snd (createRouter s)) ! fst (createRouter s) in
     notFoundHandler r = NotFound \<and>
     notFoundHandler r \<noteq> notFoundHandler (NewChiRouterWithOptions DefaultOptions :: 'spec router) \<and>
     middlewares r =
       [NewStats (statsClient s), NewLogger, NewRecovery RecoveryHandler,
        NewOpenTracing (IsHTTPS (TLS (globalConfig s)))] @
       (if RequestID (globalConfig s) then [MiddlewareRequestID] else []) \<and>
     (MiddlewareRequestID \<in> set (middlewares r)) = RequestID (globalConfig s)"
proof -
  have made: "routers (snd (createRouter s)) ! fst (createRouter s) = builtRouter s"
    by (simp add: createRouter_eq)
  have chain: "middlewares (builtRouter s) =
      [NewStats (statsClient s), NewLogger, NewRecovery RecoveryHandler,
       NewOpenTracing (IsHTTPS (TLS (globalConfig s)))] @
      (if RequestID (globalConfig s) then [MiddlewareRequestID] else [])"
    and fallback: "notFoundHandler (builtRouter s) = NotFound"
    by (simp_all add: builtRouter_def)
  have default: "notFoundHandler (NewChiRouterWithOptions DefaultOptions :: 'spec router) =
      RouterDefaultNotFound"
    by (simp add: NewChiRouterWithOptions_def DefaultOptions_def)
  from chain have "(MiddlewareRequestID \<in> set (middlewares (builtRouter s))) =
      RequestID (globalConfig s)"
    by simp
  with made chain fallback default show ?thesis by (simp add: Let_def)
qed

theorem createRouter_middleware_chain_witness:
  "notFoundHandler (routers (snd (createRouter demoServer)) ! fst (createRouter demoServer)) =
     NotFound \<and>
   notFoundHandler (NewChiRouterWithOptions DefaultOptions :: string router) =
     RouterDefaultNotFound \<and>
   middlewares (routers (snd (createRouter demoServer)) ! fst (createRouter demoServer)) =
     [NewStats (StatsClient 0), NewLogger, NewRecovery RecoveryHandler, NewOpenTracing False,
      MiddlewareRequestID]"
  using createRouter_middleware_chain [of demoServer]
  by (simp add: Let_def demoServer_def New_def demoConfig_def NewChiRouterWithOptions_def
      DefaultOptions_def)

subsection \<open>The warm reload\<close>

text \<open>
  C1. On a warm reload (\<open>started\<close> is true) \<open>handleEvent\<close> performs its steps in this
  order: it builds a new router, rebinds the registry to it, materializes the snapshot
  (on the new router, since the registry is bound to it by then), emits the \<open>Reload\<close>
  event, and last installs the new router as the handler of the HTTP server. When a
  \<open>nil\<close> pointer stops the run, the steps done are the first ones of these, in this
  order, and the handler is as it was. With the server, the registry and the loader set,
  the run completes. The routers that existed before are not touched.
\<close>

theorem warm_reload_order:
  assumes "started s"
  shows "let n = length (routers s);
             steps = [OrchestratorInvoked specs, RouterCreated n, RegistryRebound n,
                      RoutesMaterialized n specs, EventEmitted ReloadEvent (OnReload specs)]
         in (case handleEvent specs s of
               Inr s' \<Rightarrow>
                 trace s' = trace s @ steps @ [HandlerInstalled n] \<and>
                 map_option Handler (server s') = Some n \<and>
                 map_option regRouter (register s') = Some n \<and>
                 routes (routers s' ! n) = map ApiRoute (entries specs) \<and>
                 take n (routers s') = routers s
             | Inl (e, s') \<Rightarrow>
                 prefix (trace s) (trace s') \<and> prefix (trace s') (trace s @ steps) \<and>
                 server s' = server s \<and> take n (routers s') = routers s) \<and>
            (server s \<noteq> None \<and> register s \<noteq> None \<and> defLoader s \<noteq> None
               \<longrightarrow> (\<exists>s'. handleEvent specs s = Inr s'))"
proof (cases "register s")
  case None
  with assms show ?thesis
    by (simp add: Let_def handleEvent_warm_no_register)
next
  case (Some reg)
  note reg = Some
  show ?thesis
  proof (cases "defLoader s")
    case None
    with assms reg show ?thesis
      by (simp add: Let_def handleEvent_warm_no_loader)
  next
    case (Some l)
    note l = Some
    show ?thesis
    proof (cases "server s")
      case None
      with assms reg l show ?thesis
        by (simp add: Let_def handleEvent_warm_no_server)
    next
      case (Some srv)
      with assms reg l show ?thesis
        by (simp add: Let_def handleEvent_warm_ok nth_append)
    qed
  qed
qed

theorem warm_reload_order_witness:
  "started demoStarted \<and>
   (\<exists>s'. handleEvent (Some [''routeA'', ''routeB'']) demoStarted = Inr s' \<and>
      trace s' = trace demoStarted @
        [OrchestratorInvoked (Some [''routeA'', ''routeB'']), RouterCreated 1,
         RegistryRebound 1, RoutesMaterialized 1 (Some [''routeA'', ''routeB'']),
         EventEmitted ReloadEvent (OnReload (Some [''routeA'', ''routeB''])),
         HandlerInstalled 1] \<and>
      map_option Handler (server s') = Some 1 \<and>
      routes (routers s' ! 1) = [ApiRoute ''routeA'', ApiRoute ''routeB''])"
proof -
  have st: "started demoStarted" by (rule demoStarted_fields)
  from warm_reload_order [OF st, of "Some [''routeA'', ''routeB'']"]
  show ?thesis
    using demoStarted_fields(1-5) by (auto simp add: Let_def entries_def split: sum.splits)
qed

subsection \<open>The watch loop\<close>

text \<open>
  C2. When the loop receives a message with a non-nil snapshot equal to the current
  configuration, the iteration only takes the message out of the channel: nothing else
  of the state changes, so \<open>handleEvent\<close> is not entered and the current configuration
  stays, and the loop goes on with the next iteration. And while the loop works through
  a run of \<open>k\<close> equal messages at the head of the channel (at most \<open>k\<close> iterations),
  whatever the state it starts in, \<open>handleEvent\<close> is entered at most once.
\<close>

theorem duplicate_snapshot_skipped:
  "(select p s = Some (ConfigCase (Some m), s1) \<and> Configurations m \<noteq> None \<and>
    currentConfigurations s = Configurations m \<longrightarrow>
      listenProviders (p # ps) s = listenProviders ps s1 \<and>
      s1 = s\<lparr>configurationChan := (configurationChan s)\<lparr>buf := tl (buf (configurationChan s))\<rparr>\<rparr>) \<and>
   (buf (configurationChan s) = replicate k m @ rest \<and> length qs \<le> k \<longrightarrow>
      length (handled (trace (snd (listenProviders qs s)))) \<le> length (handled (trace s)) + 1)"
proof (intro conjI impI)
  assume a: "select p s = Some (ConfigCase (Some m), s1) \<and> Configurations m \<noteq> None \<and>
    currentConfigurations s = Configurations m"
  then obtain cfg where cfg: "Configurations m = Some cfg" by auto
  from a select_ConfigCase [of p s "Some m" s1]
  obtain c where c: "recv (configurationChan s) = Some (Some m, c)"
    and s1: "s1 = s\<lparr>configurationChan := c\<rparr>" by auto
  from c have "c = (configurationChan s)\<lparr>buf := tl (buf (configurationChan s))\<rparr>"
    by (auto simp add: recv_def split: list.splits if_splits)
  with s1 show "s1 = s\<lparr>configurationChan :=
      (configurationChan s)\<lparr>buf := tl (buf (configurationChan s))\<rparr>\<rparr>" by simp
  from a cfg s1 show "listenProviders (p # ps) s = listenProviders ps s1" by simp
next
  assume "buf (configurationChan s) = replicate k m @ rest \<and> length qs \<le> k"
  then show "length (handled (trace (snd (listenProviders qs s)))) \<le> length (handled (trace s)) + 1"
    using dup_run_once [of s k m rest qs] by simp
qed

theorem duplicate_snapshot_skipped_witness:
  "select PickConfig (pending [msgA, msgA] demoStarted) =
     Some (ConfigCase (Some msgA), pending [msgA] demoStarted) \<and>
   Configurations msgA \<noteq> None \<and>
   currentConfigurations (pending [msgA, msgA] demoStarted) = Configurations msgA \<and>
   listenProviders [PickConfig, PickConfig] (pending [msgA, msgA] demoStarted) =
     listenProviders [PickConfig] (pending [msgA] demoStarted) \<and>
   listenProviders [PickConfig] (pending [msgA] demoStarted) = (Running, demoStarted) \<and>
   buf (configurationChan (pending [msgA, msgA, msgA] demoRunning)) = replicate 3 msgA @ [] \<and>
   length (handled (trace (snd (listenProviders [PickConfig, PickConfig, PickConfig]
     (pending [msgA, msgA, msgA] demoRunning))))) \<le>
     length (handled (trace (pending [msgA, msgA, msgA] demoRunning))) + 1 \<and>
   handled (trace (snd (listenProviders [PickConfig, PickConfig, PickConfig]
     (pending [msgA, msgA, msgA] demoRunning)))) = [Some [''routeA'']]"
proof -
  have sel: "select PickConfig (pending [msgA, msgA] demoStarted) =
      Some (ConfigCase (Some msgA), pending [msgA] demoStarted)"
    by (simp add: demoStarted_eq demoRunning_eq run_simps)
  have nonnil: "Configurations msgA \<noteq> None" by (simp add: msgA_def message_def)
  have cur: "currentConfigurations (pending [msgA, msgA] demoStarted) = Configurations msgA"
    by (simp add: demoStarted_fields pending_def msgA_def message_def)
  have b: "buf (configurationChan (pending [msgA, msgA, msgA] demoRunning)) =
      replicate 3 msgA @ []"
    by (simp add: pending_def numeral_3_eq_3)
  have last: "listenProviders [PickConfig] (pending [msgA] demoStarted) = (Running, demoStarted)"
    by (simp add: demoStarted_eq demoRunning_eq run_simps)
  have h: "handled (trace (snd (listenProviders [PickConfig, PickConfig, PickConfig]
      (pending [msgA, msgA, msgA] demoRunning)))) = [Some [''routeA'']]"
    by (simp add: demoRunning_eq run_simps handled_def)
  have step: "listenProviders [PickConfig, PickConfig] (pending [msgA, msgA] demoStarted) =
      listenProviders [PickConfig] (pending [msgA] demoStarted)"
    using duplicate_snapshot_skipped [of PickConfig "pending [msgA, msgA] demoStarted" msgA
        "pending [msgA] demoStarted" "[PickConfig]" 0 "[]" "[]", THEN conjunct1]
      sel nonnil cur by blast
  have le: "length (handled (trace (snd (listenProviders [PickConfig, PickConfig, PickConfig]
      (pending [msgA, msgA, msgA] demoRunning))))) \<le>
      length (handled (trace (pending [msgA, msgA, msgA] demoRunning))) + 1"
    using duplicate_snapshot_skipped [of PickConfig "pending [msgA, msgA, msgA] demoRunning"
        msgA "pending [msgA, msgA, msgA] demoRunning" "[]" 3 "[]"
        "[PickConfig, PickConfig, PickConfig]", THEN conjunct2] b
    by simp
  from sel nonnil cur step last b le h show ?thesis by blast
qed

text \<open>
  C3. From a server that has not started, whatever the loop receives: the lifecycle
  events it emits are \<open>Startup\<close> for the first snapshot handed to \<open>handleEvent\<close> and
  \<open>Reload\<close> for each later one, each with its snapshot; so \<open>Startup\<close> is emitted once if
  any snapshot was accepted and never again, and \<open>Reload\<close> once for every accepted
  snapshot after the first. Unless a panic ended the loop, \<open>started\<close> is true exactly
  when a snapshot has been accepted.
\<close>

theorem startup_once:
  assumes "\<not> started s"
  shows "\<exists>new. trace (snd (listenProviders ps s)) = trace s @ new \<and>
           emitted new = lifecycle False (handled new) \<and>
           length (filter (\<lambda>e. fst e = StartupEvent) (emitted new)) =
             (if handled new = [] then 0 else 1) \<and>
           length (filter (\<lambda>e. fst e = ReloadEvent) (emitted new)) = length (handled new) - 1 \<and>
           ((\<forall>e. fst (listenProviders ps s) \<noteq> Crashed e) \<longrightarrow>
              started (snd (listenProviders ps s)) = (handled new \<noteq> []))"
proof -
  from assms have "started s \<longrightarrow> register s \<noteq> None \<and> defLoader s \<noteq> None" by simp
  from listenProviders_lifecycle [OF this, of ps] assms
  obtain new where new: "trace (snd (listenProviders ps s)) = trace s @ new"
    "emitted new = lifecycle False (handled new)"
    "(\<forall>e. fst (listenProviders ps s) \<noteq> Crashed e) \<longrightarrow>
       started (snd (listenProviders ps s)) = (handled new \<noteq> [])"
    by auto
  from new(2) have "length (filter (\<lambda>e. fst e = StartupEvent) (emitted new)) =
      (if handled new = [] then 0 else 1)"
    "length (filter (\<lambda>e. fst e = ReloadEvent) (emitted new)) = length (handled new) - 1"
    by (simp_all only: lifecycle_False_names)
  with new show ?thesis by blast
qed

theorem startup_once_witness:
  "\<not> started (pending [msgA, msgA, msgAB] demoRunning) \<and>
   (\<exists>new. trace (snd (listenProviders [PickConfig, PickConfig, PickConfig]
              (pending [msgA, msgA, msgAB] demoRunning))) =
            trace (pending [msgA, msgA, msgAB] demoRunning) @ new \<and>
      handled new = [Some [''routeA''], Some [''routeA'', ''routeB'']] \<and>
      emitted new = [(StartupEvent, Some [''routeA'']),
                     (ReloadEvent, Some [''routeA'', ''routeB''])])"
proof -
  have cold: "\<not> started (pending [msgA, msgA, msgAB] demoRunning)"
    by (simp add: pending_def demoRunning_eq)
  from startup_once [OF cold, of "[PickConfig, PickConfig, PickConfig]"]
  obtain new where new: "trace (snd (listenProviders [PickConfig, PickConfig, PickConfig]
        (pending [msgA, msgA, msgAB] demoRunning))) =
      trace (pending [msgA, msgA, msgAB] demoRunning) @ new"
    and ev: "emitted new = lifecycle False (handled new)" by blast
  from new have "new =
     [OrchestratorInvoked (Some [''routeA'']),
      EventEmitted StartupEvent
        (OnStartup (StatsClient 0) (register demoRunning) demoConfig (Some [''routeA'']) None),
      RoutesMaterialized 0 (Some [''routeA'']),
      OrchestratorInvoked (Some [''routeA'', ''routeB'']), RouterCreated 1,
      RegistryRebound 1, RoutesMaterialized 1 (Some [''routeA'', ''routeB'']),
      EventEmitted ReloadEvent (OnReload (Some [''routeA'', ''routeB''])),
      HandlerInstalled 1]"
    unfolding demoQueue_trace by simp
  then have "handled new = [Some [''routeA''], Some [''routeA'', ''routeB'']]"
    by (simp add: handled_def)
  with cold new ev show ?thesis by simp
qed

text \<open>
  C7. When the \<open>select\<close> takes the configuration case and the receive reports a closed
  channel (\<open>ok\<close> is false) or delivers a message whose snapshot is \<open>nil\<close>, the loop returns
  at once: the later iterations do not run, \<open>handleEvent\<close> is not entered, the current
  configuration and \<open>started\<close> stay, and the messages behind the received one stay in the
  channel.
\<close>

theorem nil_or_closed_ends_loop:
  assumes "select p s = Some (ConfigCase mo, s1)"
    and "mo = None \<or> (\<exists>m. mo = Some m \<and> Configurations m = None)"
  shows "listenProviders (p # ps) s = (Returned, s1) \<and>
         s1 = s\<lparr>configurationChan := (configurationChan s)\<lparr>buf := tl (buf (configurationChan s))\<rparr>\<rparr> \<and>
         (mo = None \<longrightarrow> isClosed (configurationChan s) \<and> buf (configurationChan s) = [])"
proof -
  from assms(1) select_ConfigCase [of p s mo s1]
  obtain c where c: "recv (configurationChan s) = Some (mo, c)"
    and s1: "s1 = s\<lparr>configurationChan := c\<rparr>" by auto
  from c have tl: "c = (configurationChan s)\<lparr>buf := tl (buf (configurationChan s))\<rparr>"
    and closed: "mo = None \<longrightarrow> isClosed (configurationChan s) \<and> buf (configurationChan s) = []"
    by (auto simp add: recv_def split: list.splits if_splits)
  from assms have "listenProviders (p # ps) s = (Returned, s1)" by auto
  with s1 tl closed show ?thesis by simp
qed

theorem nil_or_closed_ends_loop_witness:
  "select PickConfig
     (demoStarted\<lparr>configurationChan := (configurationChan demoStarted)\<lparr>isClosed := True\<rparr>\<rparr>) =
     Some (ConfigCase None,
       demoStarted\<lparr>configurationChan := (configurationChan demoStarted)\<lparr>isClosed := True\<rparr>\<rparr>) \<and>
   listenProviders [PickConfig, PickConfig]
     (demoStarted\<lparr>configurationChan := (configurationChan demoStarted)\<lparr>isClosed := True\<rparr>\<rparr>) =
     (Returned,
       demoStarted\<lparr>configurationChan := (configurationChan demoStarted)\<lparr>isClosed := True\<rparr>\<rparr>) \<and>
   select PickConfig (pending [message None, msgAB] demoStarted) =
     Some (ConfigCase (Some (message None)), pending [msgAB] demoStarted) \<and>
   Configurations (message None :: string configuration_changed) = None \<and>
   listenProviders [PickConfig, PickConfig] (pending [message None, msgAB] demoStarted) =
     (Returned, pending [msgAB] demoStarted)"
proof -
  let ?closed =
    "demoStarted\<lparr>configurationChan := (configurationChan demoStarted)\<lparr>isClosed := True\<rparr>\<rparr>"
  have sel1: "select PickConfig ?closed = Some (ConfigCase None, ?closed)"
    by (simp add: demoStarted_eq demoRunning_eq run_simps)
  have sel2: "select PickConfig (pending [message None, msgAB] demoStarted) =
      Some (ConfigCase (Some (message None)), pending [msgAB] demoStarted)"
    by (simp add: demoStarted_eq demoRunning_eq run_simps)
  have nil: "Configurations (message None :: string configuration_changed) = None"
    by (simp add: message_def)
  have r1: "listenProviders [PickConfig, PickConfig] ?closed = (Returned, ?closed)"
    by (rule nil_or_closed_ends_loop [OF sel1 disjI1 [OF refl], THEN conjunct1])
  have "Some (message None :: string configuration_changed) = None \<or>
      (\<exists>m. Some (message None :: string configuration_changed) = Some m \<and>
         Configurations m = None)"
    using nil by simp
  then have r2: "listenProviders [PickConfig, PickConfig]
      (pending [message None, msgAB] demoStarted) = (Returned, pending [msgAB] demoStarted)"
    by (rule nil_or_closed_ends_loop [OF sel2, THEN conjunct1])
  from sel1 sel2 nil r1 r2 show ?thesis by simp
qed

text \<open>
  C6, as the code has it. A single \<open>select\<close> gives the stop case no priority. When only
  the stop channel is ready the loop takes the stop case and returns. When both channels
  are ready, either case may be taken. If it is the stop case, the loop returns and the
  pending message stays in the channel, unprocessed. If it is the configuration case, the
  loop treats the message as it treats any other, the stop signal staying in its
  channel: it returns on a closed channel or a \<open>nil\<close> snapshot, goes on to the next
  iteration on a snapshot equal to the current one, and otherwise makes the snapshot the
  current configuration, runs \<open>handleEvent\<close> on it and goes on to the next iteration.
\<close>

theorem select_when_stop_ready:
  assumes "recv (stopChan s) = Some (v, cstop)"
  shows "(recv (configurationChan s) = None \<longrightarrow>
            listenProviders (p # ps) s = (Returned, s\<lparr>stopChan := cstop\<rparr>)) \<and>
         (recv (configurationChan s) = Some (mo, ccfg) \<longrightarrow>
            listenProviders (PickStop # ps) s = (Returned, s\<lparr>stopChan := cstop\<rparr>) \<and>
            listenProviders (PickConfig # ps) s =
              (case mo of
                 None \<Rightarrow> (Returned, s\<lparr>configurationChan := ccfg\<rparr>)
               | Some m \<Rightarrow>
                   if Configurations m = None then (Returned, s\<lparr>configurationChan := ccfg\<rparr>)
                   else if currentConfigurations s = Configurations m
                     then listenProviders ps (s\<lparr>configurationChan := ccfg\<rparr>)
                   else
                     (case handleEvent (Configurations m)
                             (s\<lparr>configurationChan := ccfg,
                                currentConfigurations := Configurations m\<rparr>) of
                        Inl (e, s') \<Rightarrow> (Crashed e, s')
                      | Inr s' \<Rightarrow> listenProviders ps s')))"
proof (intro conjI impI)
  assume "recv (configurationChan s) = None"
  with assms have "select p s = Some (StopCase, s\<lparr>stopChan := cstop\<rparr>)"
    by (simp add: select_def)
  then show "listenProviders (p # ps) s = (Returned, s\<lparr>stopChan := cstop\<rparr>)" by simp
next
  assume "recv (configurationChan s) = Some (mo, ccfg)"
  with assms have "select PickStop s = Some (StopCase, s\<lparr>stopChan := cstop\<rparr>)"
    by (simp add: select_def)
  then show "listenProviders (PickStop # ps) s = (Returned, s\<lparr>stopChan := cstop\<rparr>)" by simp
next
  assume "recv (configurationChan s) = Some (mo, ccfg)"
  with assms
  have sel: "select PickConfig s = Some (ConfigCase mo, s\<lparr>configurationChan := ccfg\<rparr>)"
    by (simp add: select_def)
  show "listenProviders (PickConfig # ps) s =
      (case mo of
         None \<Rightarrow> (Returned, s\<lparr>configurationChan := ccfg\<rparr>)
       | Some m \<Rightarrow>
           if Configurations m = None then (Returned, s\<lparr>configurationChan := ccfg\<rparr>)
           else if currentConfigurations s = Configurations m
             then listenProviders ps (s\<lparr>configurationChan := ccfg\<rparr>)
           else
             (case handleEvent (Configurations m)
                     (s\<lparr>configurationChan := ccfg,
                        currentConfigurations := Configurations m\<rparr>) of
                Inl (e, s') \<Rightarrow> (Crashed e, s')
              | Inr s' \<Rightarrow> listenProviders ps s'))"
    by (cases mo) (simp_all add: sel)
qed

theorem select_when_stop_ready_witness:
  "recv (stopChan (stopSignalled (pending [msgAB] demoStarted))) =
     Some (Some True, stopChan demoStarted) \<and>
   recv (configurationChan (stopSignalled (pending [msgAB] demoStarted))) =
     Some (Some msgAB, configurationChan demoStarted) \<and>
   listenProviders [PickStop, PickConfig] (stopSignalled (pending [msgAB] demoStarted)) =
     (Returned, pending [msgAB] demoStarted) \<and>
   listenProviders [PickConfig] (stopSignalled (pending [msgAB] demoStarted)) =
     (case handleEvent (Some [''routeA'', ''routeB''])
             ((stopSignalled demoStarted)
                \<lparr>currentConfigurations := Some [''routeA'', ''routeB'']\<rparr>) of
        Inl (e, s') \<Rightarrow> (Crashed e, s')
      | Inr s' \<Rightarrow> (Running, s')) \<and>
   emitted (drop (length (trace demoStarted))
     (trace (snd (listenProviders [PickConfig]
        (stopSignalled (pending [msgAB] demoStarted)))))) =
     [(ReloadEvent, Some [''routeA'', ''routeB''])] \<and>
   recv (configurationChan (stopSignalled demoStarted)) = None \<and>
   listenProviders [PickConfig] (stopSignalled demoStarted) = (Returned, demoStarted)"
proof -
  let ?both = "stopSignalled (pending [msgAB] demoStarted)"
  have r1: "recv (stopChan ?both) = Some (Some True, stopChan demoStarted)"
    by (simp add: demoStarted_eq demoRunning_eq run_simps stopSignalled_def)
  have r2: "recv (configurationChan ?both) = Some (Some msgAB, configurationChan demoStarted)"
    by (simp add: demoStarted_eq demoRunning_eq run_simps stopSignalled_def)
  have r3: "recv (stopChan (stopSignalled demoStarted)) = Some (Some True, stopChan demoStarted)"
    by (simp add: demoStarted_eq demoRunning_eq run_simps stopSignalled_def)
  have r4: "recv (configurationChan (stopSignalled demoStarted)) = None"
    by (simp add: demoStarted_eq demoRunning_eq run_simps stopSignalled_def)
  have e1: "?both\<lparr>stopChan := stopChan demoStarted\<rparr> = pending [msgAB] demoStarted"
    by (simp add: stopSignalled_def pending_def)
  have e2: "(stopSignalled demoStarted)\<lparr>stopChan := stopChan demoStarted\<rparr> = demoStarted"
    by (simp add: stopSignalled_def)
  have e3: "?both\<lparr>configurationChan := configurationChan demoStarted,
        currentConfigurations := Configurations msgAB\<rparr> =
      (stopSignalled demoStarted)\<lparr>currentConfigurations := Some [''routeA'', ''routeB'']\<rparr>"
    by (simp add: stopSignalled_def pending_def msgAB_def message_def)
  have m: "Configurations msgAB = Some [''routeA'', ''routeB'']"
    "currentConfigurations ?both = Some [''routeA'']"
    by (simp_all add: msgAB_def message_def stopSignalled_def pending_def demoStarted_fields)
  note both2 = select_when_stop_ready [OF r1, where mo = "Some msgAB"
      and ccfg = "configurationChan demoStarted" and ps = "[PickConfig]",
      THEN conjunct2, THEN mp, OF r2]
  note both1 = select_when_stop_ready [OF r1, where mo = "Some msgAB"
      and ccfg = "configurationChan demoStarted" and ps = "[]",
      THEN conjunct2, THEN mp, OF r2]
  have a: "listenProviders [PickStop, PickConfig] ?both = (Returned, pending [msgAB] demoStarted)"
    using both2 [THEN conjunct1] e1 by simp
  have c: "listenProviders [PickConfig] ?both =
      (case handleEvent (Some [''routeA'', ''routeB''])
              ((stopSignalled demoStarted)
                 \<lparr>currentConfigurations := Some [''routeA'', ''routeB'']\<rparr>) of
         Inl (e, s') \<Rightarrow> (Crashed e, s')
       | Inr s' \<Rightarrow> (Running, s'))"
    using both1 [THEN conjunct2] m e3 by (simp split: sum.splits)
  have d: "emitted (drop (length (trace demoStarted))
      (trace (snd (listenProviders [PickConfig] ?both)))) =
      [(ReloadEvent, Some [''routeA'', ''routeB''])]"
    unfolding c
    by (simp add: demoStarted_eq demoRunning_eq run_simps stopSignalled_def emitted_def)
  have b: "listenProviders [PickConfig] (stopSignalled demoStarted) = (Returned, demoStarted)"
    using select_when_stop_ready [OF r3, where p = PickConfig and ps = "[]",
        THEN conjunct1] r4 e2 by simp
  from r1 r2 a c d r4 b show ?thesis by blast
qed

text \<open>
  The claim C6 as stated fails: with the stop signal and the message \<open>[routeA, routeB]\<close>
  both ready, an iteration in which the \<open>select\<close> picks the configuration case does not
  return; it makes the message the current configuration and enters \<open>handleEvent\<close> with it.
\<close>

theorem stop_wins_counterexample:
  "recv (stopChan (stopSignalled (pending [msgAB] demoStarted))) \<noteq> None \<and>
   recv (configurationChan (stopSignalled (pending [msgAB] demoStarted))) \<noteq> None \<and>
   fst (listenProviders [PickConfig] (stopSignalled (pending [msgAB] demoStarted))) = Running \<and>
   currentConfigurations
     (snd (listenProviders [PickConfig] (stopSignalled (pending [msgAB] demoStarted)))) =
     Some [''routeA'', ''routeB''] \<and>
   handled (trace
     (snd (listenProviders [PickConfig] (stopSignalled (pending [msgAB] demoStarted))))) =
     [Some [''routeA''], Some [''routeA'', ''routeB'']]"
  by (simp add: demoStarted_eq demoRunning_eq run_simps stopSignalled_def handled_def)

subsection \<open>The initial router\<close>

text \<open>
  The initial router. The router \<open>startHTTPServers\<close> builds has no route (its count is
  below one), so the dummy not-found route on \<open>/\<close> is added; this is done before
  \<open>listenAndServe\<close> is entered, which gets the router as handler. With that route table
  and the not-found handler, every request is answered 404 and the router does not fault;
  and so it is still after a first snapshot with no entry has been handled.
\<close>

lemma initial_router_has_not_found_route:
  "let n = length (routers s); s' = snd (startHTTPServers listenOK s) in
     RoutesCount (routers (snd (createRouter s)) ! n) < 1 \<and>
     (\<exists>s0. startHTTPServers listenOK s = listenAndServe listenOK n s0 \<and>
        routes (routers s0 ! n) = [AnyRoute ''/'' NotFound]) \<and>
     routes (routers s' ! n) = [AnyRoute ''/'' NotFound] \<and>
     map_option Handler (server s') = Some n \<and>
     ServeHTTP proxy (routers s' ! n) path = Inr 404 \<and>
     (\<not> started s \<and> entries specs = [] \<longrightarrow>
        (\<exists>s''. handleEvent specs s' = Inr s'' \<and>
           map_option Handler (server s'') = Some n \<and>
           ServeHTTP proxy (routers s'' ! n) path = Inr 404))"
proof -
  let ?n = "length (routers s)"
  let ?s0 = "(traced (RouterCreated ?n) s)
      \<lparr>routers := routers s @ [Any ''/'' NotFound (builtRouter s)],
       register := Some (NewRegister ?n
         \<lparr>StatsClientParam = statsClient s,
          FlushInterval = BackendFlushInterval (globalConfig s),
          IdleConnectionsPerHost = MaxIdleConnsPerHost (globalConfig s),
          CloseIdleConnsPeriodParam = CloseIdleConnsPeriod (globalConfig s)\<rparr>),
       defLoader := Some APILoader\<rparr>"
  let ?s' = "snd (startHTTPServers listenOK s)"
  have empty: "RoutesCount (routers (snd (createRouter s)) ! ?n) < 1"
    by (simp add: createRouter_eq RoutesCount_def builtRouter_def)
  have start: "startHTTPServers listenOK s = listenAndServe listenOK ?n ?s0"
    by (rule startHTTPServers_eq)
  have r0: "routes (routers ?s0 ! ?n) = [AnyRoute ''/'' NotFound]"
    by (simp add: Any_def builtRouter_def)
  have rs: "routers ?s' = routers s @ [Any ''/'' NotFound (builtRouter s)]"
    unfolding start by (simp add: listenAndServe_frame)
  have r: "routes (routers ?s' ! ?n) = [AnyRoute ''/'' NotFound]"
    and nf: "notFoundHandler (routers ?s' ! ?n) = NotFound"
    by (simp_all add: rs Any_def builtRouter_def)
  have h: "map_option Handler (server ?s') = Some ?n"
    unfolding start by (rule listenAndServe_frame)
  have serve: "ServeHTTP proxy (routers ?s' ! ?n) path = Inr 404"
    by (simp add: ServeHTTP_def r nf)
  have cold: "\<exists>s''. handleEvent specs ?s' = Inr s'' \<and>
      map_option Handler (server s'') = Some ?n \<and>
      ServeHTTP proxy (routers s'' ! ?n) path = Inr 404"
    if fresh: "\<not> started s" and none: "entries specs = []"
  proof -
    have st: "\<not> started ?s'" and ld: "defLoader ?s' = Some APILoader"
      and rg: "register ?s' = Some (NewRegister ?n
         \<lparr>StatsClientParam = statsClient s,
          FlushInterval = BackendFlushInterval (globalConfig s),
          IdleConnectionsPerHost = MaxIdleConnsPerHost (globalConfig s),
          CloseIdleConnsPeriodParam = CloseIdleConnsPeriod (globalConfig s)\<rparr>)"
      unfolding start using fresh by (simp_all add: listenAndServe_frame)
    have kept: "materialize specs (routers ?s' ! ?n) = routers ?s' ! ?n"
      by (simp add: materialize_def none r)
    show ?thesis
      unfolding handleEvent_cold_ok [OF st ld rg]
      using h serve by (simp add: NewRegister_def kept)
  qed
  from empty start r0 r h serve cold show ?thesis
    unfolding Let_def by blast
qed

lemma initial_router_at_demoRunning:
  "routes (routers demoRunning ! 0) = [AnyRoute ''/'' NotFound] \<and>
   map_option Handler (server demoRunning) = Some 0 \<and>
   ServeHTTP (\<lambda>sp path. None) (routers demoRunning ! 0) ''/'' = Inr 404 \<and>
   ServeHTTP (\<lambda>sp path. None) (routers demoRunning ! 0) ''/users/7'' = Inr 404"
  using initial_router_has_not_found_route [of demoServer True "\<lambda>sp path. None" "''/''" None]
    initial_router_has_not_found_route [of demoServer True "\<lambda>sp path. None" "''/users/7''" None]
  by (simp add: Let_def demoRunning_def demoServer_def New_def)

text \<open>
  C8 fails on a reload. The dummy route is added to the initial router only: the router
  \<open>handleEvent\<close> builds on a warm reload comes from the same \<open>createRouter\<close> and gets the
  routes of the snapshot and nothing else. After the snapshot \<open>[routeA]\<close>, the empty
  snapshot \<open>[]\<close> is not a duplicate; the reload installs router 1 as the handler, with no
  route at all, and a request to it meets the empty route table instead of a 404.
\<close>

theorem reload_to_empty_snapshot_has_no_route:
  "let run = listenProviders [PickConfig] (pending [message (Some [])] demoStarted);
       s = snd run
   in fst run = Running \<and>
      currentConfigurations s = Some [] \<and>
      map_option Handler (server s) = Some 1 \<and>
      RoutesCount (routers s ! 1) = 0 \<and>
      ServeHTTP (\<lambda>sp path. None) (routers s ! 1) ''/'' = Inl EmptyRouteTable \<and>
      ServeHTTP (\<lambda>sp path. None) (routers demoStarted ! 0) ''/'' = Inr 404"
  by (simp add: demoStarted_eq demoRunning_eq run_simps RoutesCount_def ServeHTTP_def)

theorem reload_to_empty_snapshot_has_no_route_witness:
  "RoutesCount (routers (snd (listenProviders [PickConfig]
     (pending [message (Some [])] demoStarted))) ! 1) = 0"
  using reload_to_empty_snapshot_has_no_route by (simp add: Let_def)

subsection \<open>Shutdown\<close>

text \<open>
  C5. The deadline of \<open>Close\<close> is ten seconds. On a server whose channels are open and
  whose HTTP server is set, so that the call reaches \<open>s.server.Close()\<close>: when that call
  never returns, or returns after the deadline, the supervising goroutine panics and the
  process is aborted; when it returns before the deadline, the supervising goroutine
  exits quietly and \<open>Close\<close> returns what \<open>s.server.Close()\<close> returned.
\<close>

theorem close_hard_deadline:
  assumes "\<not> isClosed (stopChan s)" and "\<not> isClosed (configurationChan s)"
    and "server s \<noteq> None"
  shows "closeTimeout = 10 * 1000000000 \<and>
         fst (Close Hangs s) = Aborted \<and>
         (closeTimeout < t \<longrightarrow> fst (Close (Yields t err) s) = Aborted) \<and>
         (t < closeTimeout \<longrightarrow>
            fst (Close (Yields t err) s) = Returns err \<and>
            Close_supervisor (WithTimeout closeTimeout
              (cancelledAt (fst (Close_body (Yields t err) (traced CloseInvoked s))))) =
              ExitsQuietly)"
proof -
  from assms(3) obtain srv where srv: "server s = Some srv" by auto
  have hang: "fst (Close_body Hangs (traced CloseInvoked s)) = Stuck"
    using assms(1,2) srv by (simp add: Close_body_def close_chan_def)
  have yield: "fst (Close_body (Yields t err) (traced CloseInvoked s)) = Done t err"
    using assms(1,2) srv by (simp add: Close_body_def close_chan_def)
  have "fst (Close Hangs s) = Aborted"
    by (simp add: Close_fst hang)
  moreover have "closeTimeout < t \<longrightarrow> fst (Close (Yields t err) s) = Aborted"
    by (simp add: Close_fst yield)
  moreover have "t < closeTimeout \<longrightarrow> fst (Close (Yields t err) s) = Returns err"
    by (simp add: Close_fst yield)
  moreover have "t < closeTimeout \<longrightarrow>
      Close_supervisor (WithTimeout closeTimeout
        (cancelledAt (fst (Close_body (Yields t err) (traced CloseInvoked s))))) = ExitsQuietly"
    by (simp add: yield cancelledAt_def WithTimeout_def Close_supervisor_def)
  moreover have "closeTimeout = 10 * 1000000000"
    by (simp add: closeTimeout_def second_def)
  ultimately show ?thesis by blast
qed

theorem close_hard_deadline_witness:
  "\<not> isClosed (stopChan demoStarted) \<and> \<not> isClosed (configurationChan demoStarted) \<and>
   server demoStarted \<noteq> None \<and>
   fst (Close Hangs demoStarted) = Aborted \<and>
   closeTimeout < 10000000001 \<and>
   fst (Close (Yields 10000000001 None) demoStarted) = Aborted \<and>
   (5000000 :: nat) < closeTimeout \<and>
   fst (Close (Yields 5000000 None) demoStarted) = Returns None"
proof -
  have o1: "\<not> isClosed (stopChan demoStarted)"
    and o2: "\<not> isClosed (configurationChan demoStarted)"
    and o3: "server demoStarted \<noteq> None"
    by (simp_all add: demoStarted_eq demoRunning_eq)
  have late: "closeTimeout < 10000000001" and early: "(5000000 :: nat) < closeTimeout"
    by (simp_all add: closeTimeout_def second_def)
  from close_hard_deadline [OF o1 o2 o3, of 10000000001 None] late
  have a: "fst (Close Hangs demoStarted) = Aborted"
    "fst (Close (Yields 10000000001 None) demoStarted) = Aborted" by simp_all
  from close_hard_deadline [OF o1 o2 o3, of 5000000 None] early
  have b: "fst (Close (Yields 5000000 None) demoStarted) = Returns None" by simp
  from o1 o2 o3 late early a b show ?thesis by simp
qed

text \<open>
  C10, as the code has it. \<open>Close\<close> is not idempotent: whatever a first call did, it
  leaves the stop channel closed, and the configuration channel too on a server where
  the two are closed together, and a second call on the same server panics when it
  closes the stop channel again. On a done context the goroutine of \<open>StartWithContext\<close>
  calls \<open>Close\<close> and then, by its \<open>defer\<close>, a second time. The second call is made, and
  the goroutine ends in that panic, unless the process has ended before: by the hard
  deadline of the first call, or by the \<open>log.Fatal\<close> of the goroutine that runs
  \<open>startHTTPServers\<close>, due once the first call has closed the HTTP server, when it comes
  first. In those two cases \<open>Close\<close> has been entered once only.
\<close>

theorem close_twice_panics:
  "fst (Close env2 (snd (Close env1 s))) = Panics CloseOfClosedChannel \<and>
   isClosed (stopChan (snd (Close env1 s))) \<and>
   ((isClosed (stopChan s) \<longrightarrow> isClosed (configurationChan s)) \<longrightarrow>
      isClosed (configurationChan (snd (Close env1 s)))) \<and>
   (fst (Close env1 s) \<noteq> Aborted \<and>
    \<not> (httpFatalDue (snd (Close env1 s)) \<and> race = FatalFirst) \<longrightarrow>
      fst (StartWithContext_onDone race env1 env2 s) = PanicsWith CloseOfClosedChannel \<and>
      closeCalls (trace (snd (StartWithContext_onDone race env1 env2 s))) =
        closeCalls (trace s) + 2) \<and>
   (fst (Close env1 s) \<noteq> Aborted \<and>
    httpFatalDue (snd (Close env1 s)) \<and> race = FatalFirst \<longrightarrow>
      fst (StartWithContext_onDone race env1 env2 s) = ProcessExited \<and>
      closeCalls (trace (snd (StartWithContext_onDone race env1 env2 s))) =
        closeCalls (trace s) + 1) \<and>
   (fst (Close env1 s) = Aborted \<longrightarrow>
      fst (StartWithContext_onDone race env1 env2 s) = ProcessAborted \<and>
      closeCalls (trace (snd (StartWithContext_onDone race env1 env2 s))) =
        closeCalls (trace s) + 1)"
proof -
  obtain r1 s1 where c1: "Close env1 s = (r1, s1)" by (cases "Close env1 s")
  from c1 Close_never_NeverReturns [of env1 s] have nn: "r1 \<noteq> NeverReturns" by simp
  from c1 Close_stopChan_closed [of env1 s] have closed: "isClosed (stopChan s1)" by simp
  from c1 Close_trace [of env1 s] have t1: "trace s1 = trace s @ [CloseInvoked]" by simp
  have c2: "Close env2 s1 = (Panics CloseOfClosedChannel, traced CloseInvoked s1)"
    using closed by (rule Close_on_closed)
  have twice: "fst (Close env2 (snd (Close env1 s))) = Panics CloseOfClosedChannel"
    by (simp add: c1 c2)
  have both: "(isClosed (stopChan s) \<longrightarrow> isClosed (configurationChan s)) \<longrightarrow>
      isClosed (configurationChan (snd (Close env1 s)))"
    by (simp add: Close_configurationChan_closed)
  have deferred: "fst (StartWithContext_onDone race env1 env2 s) =
        PanicsWith CloseOfClosedChannel \<and>
      closeCalls (trace (snd (StartWithContext_onDone race env1 env2 s))) =
        closeCalls (trace s) + 2"
    if "r1 \<noteq> Aborted" and "\<not> (httpFatalDue s1 \<and> race = FatalFirst)"
  proof -
    from that nn c1 c2
    have "StartWithContext_onDone race env1 env2 s =
        (PanicsWith CloseOfClosedChannel, traced CloseInvoked s1)"
      by (cases r1) (auto simp add: StartWithContext_onDone_def)
    with t1 show ?thesis by (simp add: closeCalls_def)
  qed
  have fatal: "fst (StartWithContext_onDone race env1 env2 s) = ProcessExited \<and>
      closeCalls (trace (snd (StartWithContext_onDone race env1 env2 s))) =
        closeCalls (trace s) + 1"
    if "r1 \<noteq> Aborted" and "httpFatalDue s1" and "race = FatalFirst"
  proof -
    from that nn c1
    have "StartWithContext_onDone race env1 env2 s = (ProcessExited, s1)"
      by (cases r1) (simp_all add: StartWithContext_onDone_def)
    with t1 show ?thesis by simp
  qed
  have aborted: "fst (StartWithContext_onDone race env1 env2 s) = ProcessAborted \<and>
      closeCalls (trace (snd (StartWithContext_onDone race env1 env2 s))) =
        closeCalls (trace s) + 1"
    if "r1 = Aborted"
  proof -
    from that c1
    have "StartWithContext_onDone race env1 env2 s = (ProcessAborted, s1)"
      by (simp add: StartWithContext_onDone_def)
    with t1 show ?thesis by simp
  qed
  from twice both deferred fatal aborted c1 Close_stopChan_closed [of env1 s]
  show ?thesis by simp
qed

theorem close_twice_panics_witness:
  "fst (Close (Yields 5000000 None) demoStarted) \<noteq> Aborted \<and>
   httpFatalDue (snd (Close (Yields 5000000 None) demoStarted)) \<and>
   isClosed (stopChan demoClosed) \<and> isClosed (configurationChan demoClosed) \<and>
   fst (Close (Yields 5000000 None) demoClosed) = Panics CloseOfClosedChannel \<and>
   fst (StartWithContext_onDone DeferredCloseFirst (Yields 5000000 None) (Yields 5000000 None)
     demoStarted) = PanicsWith CloseOfClosedChannel \<and>
   closeCalls (trace (snd (StartWithContext_onDone DeferredCloseFirst (Yields 5000000 None)
     (Yields 5000000 None) demoStarted))) = 2 \<and>
   fst (StartWithContext_onDone FatalFirst (Yields 5000000 None) (Yields 5000000 None)
     demoStarted) = ProcessExited \<and>
   fst (Close Hangs demoStarted) = Aborted \<and>
   fst (StartWithContext_onDone FatalFirst Hangs (Yields 5000000 None) demoStarted) =
     ProcessAborted"
proof -
  have ret: "fst (Close (Yields 5000000 None) demoStarted) = Returns None"
    and due: "httpFatalDue (snd (Close (Yields 5000000 None) demoStarted))"
    and hang: "fst (Close Hangs demoStarted) = Aborted"
    by (simp_all add: demoStarted_eq demoRunning_eq Close_def Close_body_def close_chan_def
        cancelledAt_def WithTimeout_def Close_supervisor_def traced_def closeTimeout_def
        second_def httpFatalDue_def)
  have none: "closeCalls (trace demoStarted) = 0"
    by (simp add: demoStarted_eq closeCalls_def)
  have together: "isClosed (stopChan demoStarted) \<longrightarrow> isClosed (configurationChan demoStarted)"
    by (simp add: demoStarted_eq demoRunning_eq)
  from close_twice_panics [of "Yields 5000000 None" "Yields 0 None" demoStarted] together
  have again: "fst (Close (Yields 5000000 None) demoClosed) = Panics CloseOfClosedChannel"
    and chans: "isClosed (stopChan demoClosed)" "isClosed (configurationChan demoClosed)"
    by (simp_all add: demoClosed_def)
  from close_twice_panics [of "Yields 5000000 None" "Yields 5000000 None" demoStarted
      DeferredCloseFirst] ret none
  have d: "fst (StartWithContext_onDone DeferredCloseFirst (Yields 5000000 None)
        (Yields 5000000 None) demoStarted) = PanicsWith CloseOfClosedChannel"
    "closeCalls (trace (snd (StartWithContext_onDone DeferredCloseFirst (Yields 5000000 None)
        (Yields 5000000 None) demoStarted))) = 2"
    by simp_all
  from close_twice_panics [of "Yields 5000000 None" "Yields 5000000 None" demoStarted
      FatalFirst] ret due
  have f: "fst (StartWithContext_onDone FatalFirst (Yields 5000000 None) (Yields 5000000 None)
      demoStarted) = ProcessExited"
    by simp
  from close_twice_panics [of "Yields 5000000 None" Hangs demoStarted FatalFirst] hang
  have h: "fst (StartWithContext_onDone FatalFirst Hangs (Yields 5000000 None) demoStarted) =
      ProcessAborted"
    by simp
  from ret due chans again d f hang h show ?thesis by simp
qed

text \<open>
  The claim C10 as stated fails: not every shutdown on a done context gets to the second
  call. When the first call has closed the HTTP server and the \<open>log.Fatal\<close> of the second
  goroutine comes before the deferred call, the process exits with \<open>Close\<close> entered once
  and no panic; and so it is when \<open>s.server.Close()\<close> of the first call never returns and
  the supervising goroutine aborts the process at the deadline.
\<close>

theorem second_close_not_reached_counterexample:
  "fst (StartWithContext_onDone FatalFirst (Yields 5000000 None) (Yields 0 None) demoStarted) =
     ProcessExited \<and>
   closeCalls (trace (snd (StartWithContext_onDone FatalFirst (Yields 5000000 None)
     (Yields 0 None) demoStarted))) = 1 \<and>
   fst (StartWithContext_onDone DeferredCloseFirst Hangs (Yields 0 None) demoStarted) =
     ProcessAborted \<and>
   closeCalls (trace (snd (StartWithContext_onDone DeferredCloseFirst Hangs (Yields 0 None)
     demoStarted))) = 1"
  by (simp add: demoStarted_eq demoRunning_eq StartWithContext_onDone_def Close_def
      Close_body_def close_chan_def cancelledAt_def WithTimeout_def Close_supervisor_def
      traced_def closeCalls_def httpFatalDue_def closeTimeout_def second_def)

end
